theory Spec2Isabelle
  imports Main
begin

section \<open>The decoding path of the U-Net (unet/decoding.py)\<close>

text \<open>
  The module builds a \<open>Decoder\<close> out of \<open>DecodingBlock\<close>s. Python exceptions are values
  of the type \<open>error\<close>; a computation that may raise returns \<open>error + 'a\<close>, with \<open>Inl\<close>
  for the exception. Python integers are \<open>int\<close>, tensor extents are \<open>nat\<close>.
\<close>

subsection \<open>Errors and dynamically typed values\<close>

datatype error = TypeError | AttributeError | RuntimeError

datatype pyval = PyInt int | PyStr string

definition bind_err :: "error + 'a \<Rightarrow> ('a \<Rightarrow> error + 'b) \<Rightarrow> error + 'b" where
  "bind_err r f = (case r of Inl e \<Rightarrow> Inl e | Inr v \<Rightarrow> f v)"

subsection \<open>The convolutional block (unet/conv.py, imported by the module)\<close>

text \<open>
  \<open>ConvolutionalBlock\<close> is imported from \<open>.conv\<close>. Its constructor takes
  \<open>dimensions\<close>, \<open>in_channels\<close>, \<open>out_channels\<close> positionally and the settings
  \<open>normalization\<close>, \<open>preactivation\<close>, \<open>padding\<close>, \<open>padding_mode\<close>, \<open>activation\<close>,
  \<open>dilation\<close>, \<open>kernel_size\<close> by keyword, each with a default. A keyword argument is
  \<open>Some v\<close> when the call passes \<open>v\<close> and \<open>None\<close> when the call leaves it out; passing
  Python's \<open>None\<close> for a nullable setting is \<open>Some None\<close>.
\<close>

record ConvolutionalBlock =
  cb_dimensions :: int
  cb_in_channels :: int
  cb_out_channels :: int
  cb_normalization :: "string option"
  cb_preactivation :: bool
  cb_padding :: bool
  cb_padding_mode :: string
  cb_activation :: "string option"
  cb_dilation :: "int option"
  cb_kernel_size :: int

record conv_defaults =
  default_normalization :: "string option"
  default_preactivation :: bool
  default_padding :: bool
  default_padding_mode :: string
  default_activation :: "string option"
  default_dilation :: "int option"
  default_kernel_size :: int

record conv_kwargs =
  kw_normalization :: "string option option"
  kw_preactivation :: "bool option"
  kw_padding :: "bool option"
  kw_padding_mode :: "string option"
  kw_activation :: "string option option"
  kw_dilation :: "int option option"
  kw_kernel_size :: "int option"

definition keyword :: "'a option \<Rightarrow> 'a \<Rightarrow> 'a" where
  "keyword passed dflt = (case passed of None \<Rightarrow> dflt | Some v \<Rightarrow> v)"

text \<open>
  Modelled from the spec: the constructor of \<open>ConvolutionalBlock\<close>, whose source
  (\<open>unet/conv.py\<close>) is not part of the module. The spec gives it as a constructor
  accepting \<open>(dimensions, in_channels, out_channels, normalization, preactivation,
  padding, padding_mode, activation, dilation, kernel_size)\<close> with defaults; the default
  values themselves are not given, so they are the parameter \<open>dflt\<close>. The constructor
  binds each setting to the passed value, or to its default when the call leaves it out.
\<close>

definition ConvolutionalBlock_init ::
  "conv_defaults \<Rightarrow> int \<Rightarrow> int \<Rightarrow> int \<Rightarrow> conv_kwargs \<Rightarrow> ConvolutionalBlock" where
  "ConvolutionalBlock_init dflt dimensions in_channels out_channels kw =
     \<lparr> cb_dimensions = dimensions,
       cb_in_channels = in_channels,
       cb_out_channels = out_channels,
       cb_normalization = keyword (kw_normalization kw) (default_normalization dflt),
       cb_preactivation = keyword (kw_preactivation kw) (default_preactivation dflt),
       cb_padding = keyword (kw_padding kw) (default_padding dflt),
       cb_padding_mode = keyword (kw_padding_mode kw) (default_padding_mode dflt),
       cb_activation = keyword (kw_activation kw) (default_activation dflt),
       cb_dilation = keyword (kw_dilation kw) (default_dilation dflt),
       cb_kernel_size = keyword (kw_kernel_size kw) (default_kernel_size dflt) \<rparr>"

subsection \<open>Upsampling layers\<close>

record ConvTranspose =
  ct_dimensions :: int
  ct_in_channels :: int
  ct_out_channels :: int
  ct_kernel_size :: int
  ct_stride :: int

text \<open>
  The upsample component of a block is either a transposed convolution or the closure
  \<open>lambda x: F.interpolate(x, scale_factor=2, mode=upsampling_type)\<close>, kept as the two
  values the closure holds.
\<close>

datatype upsample_layer =
    ConvTransposeLayer ConvTranspose
  | InterpolateLambda (scale_factor: int) (mode: pyval)

text \<open>
  \<open>get_upsampling_layer\<close> is declared with the single parameter \<open>upsampling_type\<close>.
  A Python call binds positional arguments to parameters one to one and raises
  \<open>TypeError\<close> when their numbers differ, so the function takes the list of the
  positional arguments of the call.
\<close>

definition get_upsampling_layer :: "pyval list \<Rightarrow> error + upsample_layer" where
  "get_upsampling_layer args =
     (case args of
        [upsampling_type] \<Rightarrow> Inr (InterpolateLambda 2 upsampling_type)
      | _ \<Rightarrow> Inl TypeError)"

text \<open>
  \<open>getattr(nn, f'ConvTranspose{dimensions}d')\<close> finds a class for 1, 2 and 3 and raises
  \<open>AttributeError\<close> otherwise. The class found is then called with the two channel
  counts; it allocates a weight of that many channels, which raises \<open>RuntimeError\<close>
  for a negative count.
\<close>

definition get_conv_transpose_layer :: "int \<Rightarrow> int \<Rightarrow> int \<Rightarrow> error + upsample_layer" where
  "get_conv_transpose_layer dimensions in_channels out_channels =
     (if dimensions \<in> {1, 2, 3}
      then (if in_channels < 0 \<or> out_channels < 0 then Inl RuntimeError
            else Inr (ConvTransposeLayer
                   \<lparr> ct_dimensions = dimensions, ct_in_channels = in_channels,
                     ct_out_channels = out_channels, ct_kernel_size = 2, ct_stride = 2 \<rparr>))
      else Inl AttributeError)"

subsection \<open>DecodingBlock: construction\<close>

record DecodingBlock =
  db_residual :: bool
  db_upsample :: upsample_layer
  db_conv1 :: ConvolutionalBlock
  db_conv2 :: ConvolutionalBlock
  db_conv_residual :: "ConvolutionalBlock option"

text \<open>The keyword arguments of the two calls that build \<open>conv1\<close> and \<open>conv2\<close>.\<close>

definition main_kwargs ::
  "string option \<Rightarrow> bool \<Rightarrow> bool \<Rightarrow> string \<Rightarrow> string option \<Rightarrow> int option \<Rightarrow> conv_kwargs" where
  "main_kwargs normalization preactivation padding padding_mode activation dilation =
     \<lparr> kw_normalization = Some normalization,
       kw_preactivation = Some preactivation,
       kw_padding = Some padding,
       kw_padding_mode = Some padding_mode,
       kw_activation = Some activation,
       kw_dilation = Some dilation,
       kw_kernel_size = None \<rparr>"

text \<open>
  The keyword arguments of the call that builds \<open>conv_residual\<close>:
  \<open>kernel_size=1, normalization=None, activation=None\<close> and nothing else.
\<close>

definition residual_kwargs :: conv_kwargs where
  "residual_kwargs =
     \<lparr> kw_normalization = Some None,
       kw_preactivation = None,
       kw_padding = None,
       kw_padding_mode = None,
       kw_activation = Some None,
       kw_dilation = None,
       kw_kernel_size = Some 1 \<rparr>"

definition DecodingBlock_init ::
  "conv_defaults \<Rightarrow> int \<Rightarrow> int \<Rightarrow> string \<Rightarrow> string option \<Rightarrow> bool \<Rightarrow> bool \<Rightarrow> bool \<Rightarrow>
   string \<Rightarrow> string option \<Rightarrow> int option \<Rightarrow> error + DecodingBlock" where
  "DecodingBlock_init dflt in_channels_skip_connection dimensions upsampling_type
       normalization preactivation residual padding padding_mode activation dilation =
     bind_err
       (if upsampling_type = ''conv''
        then (let in_channels = 2 * in_channels_skip_connection;
                  out_channels = 2 * in_channels_skip_connection
              in get_conv_transpose_layer dimensions in_channels out_channels)
        else get_upsampling_layer [PyInt dimensions, PyStr upsampling_type])
       (\<lambda>upsample.
          let in_channels_first = in_channels_skip_connection * (1 + 2);
              out_channels = in_channels_skip_connection;
              kw = main_kwargs normalization preactivation padding padding_mode
                     activation dilation;
              conv1 = ConvolutionalBlock_init dflt dimensions in_channels_first
                        out_channels kw;
              in_channels_second = out_channels;
              conv2 = ConvolutionalBlock_init dflt dimensions in_channels_second
                        out_channels kw
          in Inr \<lparr> db_residual = residual,
                   db_upsample = upsample,
                   db_conv1 = conv1,
                   db_conv2 = conv2,
                   db_conv_residual =
                     (if residual
                      then Some (ConvolutionalBlock_init dflt dimensions in_channels_first
                                   out_channels residual_kwargs)
                      else None) \<rparr>)"

subsection \<open>Decoder: construction\<close>

record Decoder =
  dec_decoding_blocks :: "DecodingBlock list"
  dec_dilation :: "int option"

text \<open>
  The loop \<open>for _ in range(num_decoding_blocks)\<close> of \<open>Decoder.__init__\<close>. Its state is
  the \<open>ModuleList\<close> built so far and the two running values
  \<open>in_channels_skip_connection\<close> and \<open>self.dilation\<close>; \<open>mk\<close> is the call of the
  \<open>DecodingBlock\<close> constructor on the two running values, the other arguments being the
  same in every round. An exception of the constructor leaves the loop.
\<close>

fun Decoder_init_loop ::
  "(int \<Rightarrow> int option \<Rightarrow> error + DecodingBlock) \<Rightarrow> nat \<Rightarrow> DecodingBlock list \<Rightarrow> int \<Rightarrow>
   int option \<Rightarrow> error + (DecodingBlock list \<times> int \<times> int option)" where
  "Decoder_init_loop mk 0 blocks in_channels_skip_connection dil =
     Inr (blocks, in_channels_skip_connection, dil)"
| "Decoder_init_loop mk (Suc n) blocks in_channels_skip_connection dil =
     (case mk in_channels_skip_connection dil of
        Inl e \<Rightarrow> Inl e
      | Inr decoding_block \<Rightarrow>
          Decoder_init_loop mk n (blocks @ [decoding_block])
            (in_channels_skip_connection div 2)
            (case dil of None \<Rightarrow> None | Some d \<Rightarrow> Some (d div 2)))"

definition Decoder_init ::
  "conv_defaults \<Rightarrow> int \<Rightarrow> int \<Rightarrow> string \<Rightarrow> int \<Rightarrow> string option \<Rightarrow> bool \<Rightarrow> bool \<Rightarrow> bool \<Rightarrow>
   string \<Rightarrow> string option \<Rightarrow> int option \<Rightarrow> error + Decoder" where
  "Decoder_init dflt in_channels_skip_connection dimensions upsampling_type
       num_decoding_blocks normalization preactivation residual padding padding_mode
       activation initial_dilation =
     bind_err
       (Decoder_init_loop
          (\<lambda>c dil. DecodingBlock_init dflt c dimensions upsampling_type normalization
                     preactivation residual padding padding_mode activation dil)
          (nat num_decoding_blocks) [] in_channels_skip_connection initial_dilation)
       (\<lambda>(blocks, c, dil).
          Inr \<lparr> dec_decoding_blocks = blocks, dec_dilation = dil \<rparr>)"

subsection \<open>The tensor primitives\<close>

text \<open>
  The numeric kernels belong to the tensor library and to \<open>ConvolutionalBlock\<close>, so the
  forward pass takes them as a parameter: an \<open>engine\<close> over a tensor type \<open>'t\<close> gives
  \<open>tensor.shape\<close>, \<open>F.pad\<close>, \<open>torch.cat\<close> of a pair along an axis, the in-place addition
  \<open>x += y\<close>, \<open>F.interpolate\<close>, the call of a transposed convolution and the call of a
  convolutional block. Each primitive but \<open>shape\<close> may raise.
\<close>

record 't engine =
  shape_of :: "'t \<Rightarrow> nat list"
  pad_fn :: "'t \<Rightarrow> int list \<Rightarrow> error + 't"
  cat_fn :: "'t \<Rightarrow> 't \<Rightarrow> nat \<Rightarrow> error + 't"
  iadd_fn :: "'t \<Rightarrow> 't \<Rightarrow> error + 't"
  interpolate_fn :: "'t \<Rightarrow> int \<Rightarrow> pyval \<Rightarrow> error + 't"
  conv_transpose_fn :: "ConvTranspose \<Rightarrow> 't \<Rightarrow> error + 't"
  conv_block_fn :: "ConvolutionalBlock \<Rightarrow> 't \<Rightarrow> error + 't"

definition CHANNELS_DIMENSION :: nat where
  "CHANNELS_DIMENSION = 1"

subsection \<open>DecodingBlock: center_crop and forward\<close>

text \<open>
  Subtraction of two one-dimensional integer tensors, with the library's broadcasting:
  equal lengths subtract elementwise, a tensor of one element is repeated, any other
  pair of lengths raises.
\<close>

definition tensor_sub :: "int list \<Rightarrow> int list \<Rightarrow> error + int list" where
  "tensor_sub a b =
     (if length a = length b then Inr (map2 (\<lambda>u v. u - v) a b)
      else if length b = 1 then Inr (map (\<lambda>u. u - hd b) a)
      else if length a = 1 then Inr (map (\<lambda>v. hd a - v) b)
      else Inl RuntimeError)"

text \<open>
  Lines 129 to 135 of \<open>center_crop\<close>: the pad descriptor computed from the two shapes.
  \<open>torch.stack((half_crop, half_crop))\<close> is the two-row matrix, \<open>.t()\<close> its transpose,
  \<open>.flatten()\<close> the concatenation of the rows, and the whole is negated. \<open>//\<close> is
  floor division, as \<open>div\<close> on \<open>int\<close> is.
\<close>

definition crop_pad :: "nat list \<Rightarrow> nat list \<Rightarrow> error + int list" where
  "crop_pad skip_shape x_shape =
     bind_err (tensor_sub (drop 2 (map int skip_shape)) (drop 2 (map int x_shape)))
       (\<lambda>crop.
          let half_crop = map (\<lambda>c. c div 2) crop
          in Inr (map uminus (concat (transpose [half_crop, half_crop]))))"

definition center_crop :: "'t engine \<Rightarrow> 't \<Rightarrow> 't \<Rightarrow> error + 't" where
  "center_crop eng skip_connection x =
     bind_err (crop_pad (shape_of eng skip_connection) (shape_of eng x))
       (\<lambda>pad. pad_fn eng skip_connection pad)"

definition apply_upsample :: "'t engine \<Rightarrow> upsample_layer \<Rightarrow> 't \<Rightarrow> error + 't" where
  "apply_upsample eng up x =
     (case up of
        ConvTransposeLayer ct \<Rightarrow> conv_transpose_fn eng ct x
      | InterpolateLambda sf m \<Rightarrow> interpolate_fn eng x sf m)"

text \<open>
  \<open>self.conv_residual\<close> exists only in a block built with \<open>residual=True\<close>; reading it
  elsewhere raises \<open>AttributeError\<close>.
\<close>

definition DecodingBlock_forward ::
  "'t engine \<Rightarrow> DecodingBlock \<Rightarrow> 't \<Rightarrow> 't \<Rightarrow> error + 't" where
  "DecodingBlock_forward eng self skip_connection x =
     bind_err (apply_upsample eng (db_upsample self) x) (\<lambda>x1.
     bind_err (center_crop eng skip_connection x1) (\<lambda>skip1.
     bind_err (cat_fn eng skip1 x1 CHANNELS_DIMENSION) (\<lambda>x2.
       if db_residual self
       then (case db_conv_residual self of
               None \<Rightarrow> Inl AttributeError
             | Some conv_residual \<Rightarrow>
                 bind_err (conv_block_fn eng conv_residual x2) (\<lambda>connection.
                 bind_err (conv_block_fn eng (db_conv1 self) x2) (\<lambda>x3.
                 bind_err (conv_block_fn eng (db_conv2 self) x3) (\<lambda>x4.
                   iadd_fn eng x4 connection))))
       else bind_err (conv_block_fn eng (db_conv1 self) x2) (\<lambda>x3.
            bind_err (conv_block_fn eng (db_conv2 self) x3) (\<lambda>x4.
              Inr x4)))))"

subsection \<open>Decoder: forward\<close>

text \<open>The loop over \<open>zip(reversed(skip_connections), self.decoding_blocks)\<close>.\<close>

fun Decoder_forward_loop ::
  "'t engine \<Rightarrow> ('t \<times> DecodingBlock) list \<Rightarrow> 't \<Rightarrow> error + 't" where
  "Decoder_forward_loop eng [] x = Inr x"
| "Decoder_forward_loop eng ((skip_connection, decoding_block) # zipped) x =
     (case DecodingBlock_forward eng decoding_block skip_connection x of
        Inl e \<Rightarrow> Inl e
      | Inr x' \<Rightarrow> Decoder_forward_loop eng zipped x')"

definition Decoder_forward :: "'t engine \<Rightarrow> Decoder \<Rightarrow> 't list \<Rightarrow> 't \<Rightarrow> error + 't" where
  "Decoder_forward eng self skip_connections x =
     Decoder_forward_loop eng (zip (rev skip_connections) (dec_decoding_blocks self)) x"

subsection \<open>The shapes the tensor library computes\<close>

text \<open>
  \<open>F.pad(input, pad)\<close> reads the descriptor in pairs \<open>(leading, trailing)\<close>, the first
  pair for the last axis of the input, the second pair for the axis before it, and so
  on. The descriptor must have even length and at most one pair for each axis. A
  negative amount crops; an axis that would get a negative extent raises.
\<close>

fun pad_pairs :: "int list \<Rightarrow> (int \<times> int) list" where
  "pad_pairs (l # r # rest) = (l, r) # pad_pairs rest"
| "pad_pairs _ = []"

definition pad_shape :: "nat list \<Rightarrow> int list \<Rightarrow> error + nat list" where
  "pad_shape shp pad =
     (if odd (length pad) \<or> length shp < length pad div 2 then Inl RuntimeError
      else
        let k = length pad div 2;
            kept = take (length shp - k) shp;
            padded = drop (length shp - k) shp;
            extents = map2 (\<lambda>s (l, r). int s + l + r) padded (rev (pad_pairs pad))
        in if list_ex (\<lambda>e. e < 0) extents then Inl RuntimeError
           else Inr (kept @ map nat extents))"

text \<open>
  \<open>torch.cat((a, b), dim)\<close> needs the axis to exist and the two shapes to agree on every
  other axis; the extents along the axis add up.
\<close>

definition cat_shape :: "nat list \<Rightarrow> nat list \<Rightarrow> nat \<Rightarrow> error + nat list" where
  "cat_shape a b d =
     (if length a = length b \<and> d < length a \<and> take d a = take d b
         \<and> drop (Suc d) a = drop (Suc d) b
      then Inr (a[d := a ! d + b ! d])
      else Inl RuntimeError)"

text \<open>
  \<open>x += y\<close> keeps the shape of \<open>x\<close> and needs \<open>y\<close> to broadcast to it: aligned at the
  last axis, each extent of \<open>y\<close> is the extent of \<open>x\<close> or 1.
\<close>

definition iadd_shape :: "nat list \<Rightarrow> nat list \<Rightarrow> error + nat list" where
  "iadd_shape a b =
     (if length b \<le> length a
         \<and> list_all2 (\<lambda>bd ad. bd = ad \<or> bd = 1) b (drop (length a - length b) a)
      then Inr a
      else Inl RuntimeError)"

text \<open>
  Modelled from the spec: the call contract of \<open>ConvolutionalBlock\<close>, whose source is
  not part of the module. The spec gives \<open>block(tensor) -> tensor\<close> as preserving the
  batch size and changing the channel count from \<open>in_channels\<close> to \<open>out_channels\<close>, the
  spatial extents being preserved or adjusted per padding and dilation; what happens to
  the spatial extents is the parameter \<open>spatial\<close>.
\<close>

definition conv_block_shape ::
  "(ConvolutionalBlock \<Rightarrow> nat list \<Rightarrow> error + nat list) \<Rightarrow> ConvolutionalBlock \<Rightarrow> nat list \<Rightarrow>
   error + nat list" where
  "conv_block_shape spatial cb shp =
     (case shp of
        batch # channels # extents \<Rightarrow>
          if int channels = cb_in_channels cb
          then bind_err (spatial cb extents)
                 (\<lambda>extents'. Inr (batch # nat (cb_out_channels cb) # extents'))
          else Inl RuntimeError
      | _ \<Rightarrow> Inl RuntimeError)"

text \<open>
  The engine in which a tensor is its shape. Interpolation and the transposed
  convolution are parameters, as is the spatial behaviour of a convolutional block.
\<close>

definition shape_engine ::
  "(nat list \<Rightarrow> int \<Rightarrow> pyval \<Rightarrow> error + nat list) \<Rightarrow>
   (ConvTranspose \<Rightarrow> nat list \<Rightarrow> error + nat list) \<Rightarrow>
   (ConvolutionalBlock \<Rightarrow> nat list \<Rightarrow> error + nat list) \<Rightarrow> (nat list) engine" where
  "shape_engine interp convt spatial =
     \<lparr> shape_of = (\<lambda>t. t),
       pad_fn = pad_shape,
       cat_fn = cat_shape,
       iadd_fn = iadd_shape,
       interpolate_fn = interp,
       conv_transpose_fn = convt,
       conv_block_fn = conv_block_shape spatial \<rparr>"

text \<open>
  The shapes of the two upsampling primitives. A transposed convolution with kernel
  \<open>k\<close> and stride \<open>s\<close> (no padding) takes a batched input of its own dimensionality
  and channel count and turns an extent \<open>e\<close> into \<open>(e - 1) * s + k\<close>; interpolation
  multiplies every spatial extent by the scale factor.
\<close>

definition conv_transpose_shape :: "ConvTranspose \<Rightarrow> nat list \<Rightarrow> error + nat list" where
  "conv_transpose_shape ct shp =
     (case shp of
        batch # channels # extents \<Rightarrow>
          if int channels = ct_in_channels ct \<and> int (length extents) = ct_dimensions ct
          then Inr (batch # nat (ct_out_channels ct)
                      # map (\<lambda>e. nat ((int e - 1) * ct_stride ct + ct_kernel_size ct)) extents)
          else Inl RuntimeError
      | _ \<Rightarrow> Inl RuntimeError)"

definition interpolate_shape :: "nat list \<Rightarrow> int \<Rightarrow> pyval \<Rightarrow> error + nat list" where
  "interpolate_shape shp sf m =
     (case shp of
        batch # channels # e # extents \<Rightarrow>
          Inr (batch # channels # map (\<lambda>e. nat (int e * sf)) (e # extents))
      | _ \<Rightarrow> Inl RuntimeError)"

text \<open>A convolutional block that keeps the spatial extents, and the engine built on it.\<close>

definition keep_extents :: "ConvolutionalBlock \<Rightarrow> nat list \<Rightarrow> error + nat list" where
  "keep_extents cb extents = Inr extents"

definition example_engine :: "(nat list) engine" where
  "example_engine = shape_engine interpolate_shape conv_transpose_shape keep_extents"

definition example_defaults :: conv_defaults where
  "example_defaults =
     \<lparr> default_normalization = None, default_preactivation = False,
       default_padding = False, default_padding_mode = ''zeros'',
       default_activation = Some ''ReLU'', default_dilation = None,
       default_kernel_size = 3 \<rparr>"

text \<open>
  The engine in which a tensor is the expression that computes it: every primitive
  succeeds and records its call. The shapes of the expressions are a parameter.
\<close>

datatype sym_tensor =
    Sym string
  | SymPad sym_tensor "int list"
  | SymCat sym_tensor sym_tensor nat
  | SymAdd sym_tensor sym_tensor
  | SymInterpolate sym_tensor int pyval
  | SymConvTranspose ConvTranspose sym_tensor
  | SymConv ConvolutionalBlock sym_tensor

definition symbolic_engine :: "(sym_tensor \<Rightarrow> nat list) \<Rightarrow> sym_tensor engine" where
  "symbolic_engine shp =
     \<lparr> shape_of = shp,
       pad_fn = (\<lambda>t pad. Inr (SymPad t pad)),
       cat_fn = (\<lambda>a b d. Inr (SymCat a b d)),
       iadd_fn = (\<lambda>a b. Inr (SymAdd a b)),
       interpolate_fn = (\<lambda>t sf m. Inr (SymInterpolate t sf m)),
       conv_transpose_fn = (\<lambda>ct t. Inr (SymConvTranspose ct t)),
       conv_block_fn = (\<lambda>cb t. Inr (SymConv cb t)) \<rparr>"

subsection \<open>What the specification says, as functions\<close>

text \<open>
  The dilation the specification gives to stage \<open>k\<close>: \<open>d // 2^k\<close> for an integer
  \<open>d\<close>, and \<open>None\<close> for \<open>None\<close>.
\<close>

definition spec_stage_dilation :: "int option \<Rightarrow> nat \<Rightarrow> int option" where
  "spec_stage_dilation dil k = (case dil of None \<Rightarrow> None | Some d \<Rightarrow> Some (d div 2 ^ k))"

text \<open>
  The amount the specification crops from each side of each spatial axis:
  \<open>floor((skip_extent - x_extent) / 2)\<close>, axis by axis.
\<close>

definition half_crops :: "nat list \<Rightarrow> nat list \<Rightarrow> int list" where
  "half_crops skip_shape x_shape =
     map2 (\<lambda>s e. (int s - int e) div 2) (drop 2 skip_shape) (drop 2 x_shape)"

text \<open>
  The specification of \<open>Decoder.forward\<close>, stage by stage: stage \<open>k\<close> applies block
  \<open>k\<close> to the skip connection at reverse index \<open>k\<close> and to the result of the stages
  before it. \<open>spec_stage_output eng blocks skips x m\<close> is the result after \<open>m\<close> stages.
\<close>

fun spec_stage_output ::
  "'t engine \<Rightarrow> DecodingBlock list \<Rightarrow> 't list \<Rightarrow> 't \<Rightarrow> nat \<Rightarrow> error + 't" where
  "spec_stage_output eng blocks skips x 0 = Inr x"
| "spec_stage_output eng blocks skips x (Suc k) =
     bind_err (spec_stage_output eng blocks skips x k)
       (\<lambda>y. DecodingBlock_forward eng (blocks ! k) (skips ! (length skips - 1 - k)) y)"

text \<open>
  The specification of \<open>DecodingBlock.forward\<close>: \<open>concat\<close> is the concatenation along
  the channel axis of the cropped skip connection and the upsampled \<open>x\<close>; the result is
  \<open>conv2(conv1(concat)) + conv_residual(concat)\<close> with the residual path and
  \<open>conv2(conv1(concat))\<close> without it.
\<close>

definition spec_concat :: "'t engine \<Rightarrow> DecodingBlock \<Rightarrow> 't \<Rightarrow> 't \<Rightarrow> error + 't" where
  "spec_concat eng blk skip x =
     bind_err (apply_upsample eng (db_upsample blk) x) (\<lambda>up.
     bind_err (center_crop eng skip up) (\<lambda>cropped.
       cat_fn eng cropped up 1))"

definition spec_plain_output :: "'t engine \<Rightarrow> DecodingBlock \<Rightarrow> 't \<Rightarrow> error + 't" where
  "spec_plain_output eng blk c =
     bind_err (conv_block_fn eng (db_conv1 blk) c) (conv_block_fn eng (db_conv2 blk))"

definition spec_residual_output :: "'t engine \<Rightarrow> DecodingBlock \<Rightarrow> 't \<Rightarrow> error + 't" where
  "spec_residual_output eng blk c =
     bind_err (spec_plain_output eng blk c) (\<lambda>main.
       case db_conv_residual blk of
         None \<Rightarrow> Inl AttributeError
       | Some conv_residual \<Rightarrow>
           bind_err (conv_block_fn eng conv_residual c) (\<lambda>shortcut.
             iadd_fn eng main shortcut))"

section \<open>Properties\<close>

subsection \<open>Construction of a block\<close>

text \<open>
  C2. The claim: for every upsampling mode other than \<open>conv\<close> the construction of a
  \<open>DecodingBlock\<close> succeeds and its upsample component interpolates with scale factor 2
  in the named mode. The code calls \<open>get_upsampling_layer(dimensions, upsampling_type)\<close>
  with two positional arguments while the function is declared with one, so for every
  such mode the construction raises \<open>TypeError\<close> and no block is built.
\<close>

theorem DecodingBlock_init_interpolation_raises:
  "upsampling_type \<noteq> ''conv'' \<Longrightarrow>
   DecodingBlock_init dflt in_channels_skip_connection dimensions upsampling_type
     normalization preactivation residual padding padding_mode activation dilation
   = Inl TypeError"
  by (simp add: DecodingBlock_init_def get_upsampling_layer_def bind_err_def)

theorem DecodingBlock_init_interpolation_raises_witness:
  "''trilinear'' \<noteq> ''conv'' \<and>
   DecodingBlock_init example_defaults 4 3 ''trilinear'' None True False False ''zeros''
     (Some ''ReLU'') None
   = Inl TypeError"
  using DecodingBlock_init_interpolation_raises
    [of "''trilinear''" example_defaults 4 3 None True False False "''zeros''"
        "Some ''ReLU''" None]
  by simp

subsection \<open>The crop\<close>

text \<open>
  C1. The claim: for a skip connection of spatial shape (10, 20, 30) and an upsampled
  \<open>x\<close> of spatial shape (6, 14, 12) the pad descriptor is (-2, -2, -3, -3, -9, -9), its
  slots match the last-axis-first convention of the padding primitive, and the cropped
  skip connection has spatial shape (6, 14, 12). The code does compute that descriptor,
  in first-axis-first order; the padding primitive reads it last axis first, so the
  pair (-9, -9) meant for the axis of extent 30 goes to the axis of extent 10, whose
  extent would become -8, and the call raises.
\<close>

theorem center_crop_example_raises:
  "crop_pad [n, c, 10, 20, 30] [n', c', 6, 14, 12] = Inr [-2, -2, -3, -3, -9, -9]
   \<and> pad_shape [n, c, 10, 20, 30] [-2, -2, -3, -3, -9, -9] = Inl RuntimeError
   \<and> center_crop (shape_engine interp convt spatial) [n, c, 10, 20, 30] [n', c', 6, 14, 12]
       = Inl RuntimeError"
  by (simp add: center_crop_def shape_engine_def crop_pad_def tensor_sub_def bind_err_def
        pad_shape_def)

theorem center_crop_example_raises_witness:
  "crop_pad [1, 4, 10, 20, 30] [1, 8, 6, 14, 12] = Inr [-2, -2, -3, -3, -9, -9]
   \<and> pad_shape [1, 4, 10, 20, 30] [-2, -2, -3, -3, -9, -9] = Inl RuntimeError
   \<and> center_crop example_engine [1, 4, 10, 20, 30] [1, 8, 6, 14, 12] = Inl RuntimeError"
  using center_crop_example_raises
    [of 1 4 1 8 interpolate_shape conv_transpose_shape keep_extents]
  by (simp add: example_engine_def)

text \<open>
  Where the call does not raise, the same exchange of axes gives a result of the wrong
  shape: a skip connection of spatial shape (10, 12) against an \<open>x\<close> of spatial shape
  (6, 10) is cropped to (8, 8). With one crop amount for every axis the order does not
  matter, and the crop is exact.
\<close>

lemma center_crop_axis_order:
  "center_crop (shape_engine interp convt spatial) [n, c, 10, 12] [n', c', 6, 10]
     = Inr [n, c, 8, 8]"
  "center_crop (shape_engine interp convt spatial) [n, c, 10, 10, 10] [n', c', 6, 6, 6]
     = Inr [n, c, 6, 6, 6]"
  by (simp_all add: center_crop_def shape_engine_def crop_pad_def tensor_sub_def bind_err_def
        pad_shape_def)

subsection \<open>Construction of a decoder\<close>

text \<open>Halving \<open>k\<close> times in a row is one floor division by \<open>2^k\<close>.\<close>

lemma spec_stage_dilation_0: "spec_stage_dilation dil 0 = dil"
  by (simp add: spec_stage_dilation_def split: option.splits)

lemma div_2_div_pow: "(c::int) div 2 div 2 ^ k = c div 2 ^ Suc k"
  by (simp add: zdiv_zmult2_eq)

lemma spec_stage_dilation_Suc:
  "spec_stage_dilation (case dil of None \<Rightarrow> None | Some d \<Rightarrow> Some (d div 2)) k
   = spec_stage_dilation dil (Suc k)"
  by (simp add: spec_stage_dilation_def zdiv_zmult2_eq split: option.splits)

lemma Decoder_init_loop_blocks:
  assumes "\<forall>k<n. \<exists>b. mk (c div 2 ^ k) (spec_stage_dilation dil k) = Inr b"
  shows "\<exists>bs. Decoder_init_loop mk n blocks c dil
                = Inr (blocks @ bs, c div 2 ^ n, spec_stage_dilation dil n)
           \<and> length bs = n
           \<and> (\<forall>k<n. mk (c div 2 ^ k) (spec_stage_dilation dil k) = Inr (bs ! k))"
  using assms
proof (induction n arbitrary: blocks c dil)
  case 0
  then show ?case by (simp add: spec_stage_dilation_0)
next
  case (Suc n)
  from Suc.prems have "\<exists>b. mk (c div 2 ^ 0) (spec_stage_dilation dil 0) = Inr b"
    by blast
  then obtain b where b: "mk c dil = Inr b"
    by (auto simp: spec_stage_dilation_0)
  let ?dil = "case dil of None \<Rightarrow> None | Some d \<Rightarrow> Some (d div 2)"
  have "\<forall>k<n. \<exists>b. mk (c div 2 div 2 ^ k) (spec_stage_dilation ?dil k) = Inr b"
    using Suc.prems by (auto simp: spec_stage_dilation_Suc div_2_div_pow simp del: power_Suc)
  from Suc.IH [OF this, of "blocks @ [b]"] obtain bs where
    bs: "Decoder_init_loop mk n (blocks @ [b]) (c div 2) ?dil
           = Inr ((blocks @ [b]) @ bs, c div 2 div 2 ^ n, spec_stage_dilation ?dil n)"
        "length bs = n"
        "\<forall>k<n. mk (c div 2 div 2 ^ k) (spec_stage_dilation ?dil k) = Inr (bs ! k)"
    by blast
  have "\<forall>k<Suc n. mk (c div 2 ^ k) (spec_stage_dilation dil k) = Inr ((b # bs) ! k)"
  proof (intro allI impI)
    fix k assume "k < Suc n"
    show "mk (c div 2 ^ k) (spec_stage_dilation dil k) = Inr ((b # bs) ! k)"
    proof (cases k)
      case 0
      then show ?thesis using b by (simp add: spec_stage_dilation_0)
    next
      case (Suc j)
      then have "j < n" using \<open>k < Suc n\<close> by simp
      with bs(3) have "mk (c div 2 div 2 ^ j) (spec_stage_dilation ?dil j) = Inr (bs ! j)"
        by blast
      then show ?thesis
        using Suc by (simp add: spec_stage_dilation_Suc div_2_div_pow del: power_Suc)
    qed
  qed
  moreover have "Decoder_init_loop mk (Suc n) blocks c dil
      = Inr (blocks @ (b # bs), c div 2 ^ Suc n, spec_stage_dilation dil (Suc n))"
    using b bs(1) by (simp add: spec_stage_dilation_Suc div_2_div_pow del: power_Suc)
  ultimately show ?case using bs(2)
    by (intro exI [of _ "b # bs"]) simp
qed

lemma Decoder_init_blocks:
  assumes "\<forall>k<nat n. \<exists>b. DecodingBlock_init dflt (c div 2 ^ k) dims up norm pre res pad pm act
                              (spec_stage_dilation dil k) = Inr b"
  shows "\<exists>dec. Decoder_init dflt c dims up n norm pre res pad pm act dil = Inr dec
           \<and> length (dec_decoding_blocks dec) = nat n
           \<and> dec_dilation dec = spec_stage_dilation dil (nat n)
           \<and> (\<forall>k<nat n. DecodingBlock_init dflt (c div 2 ^ k) dims up norm pre res pad pm act
                           (spec_stage_dilation dil k) = Inr (dec_decoding_blocks dec ! k))"
proof -
  let ?mk = "\<lambda>c dil. DecodingBlock_init dflt c dims up norm pre res pad pm act dil"
  from Decoder_init_loop_blocks [of "nat n" ?mk c dil "[]"] assms
  obtain bs where
    bs: "Decoder_init_loop ?mk (nat n) [] c dil
           = Inr ([] @ bs, c div 2 ^ nat n, spec_stage_dilation dil (nat n))"
        "length bs = nat n"
        "\<forall>k<nat n. ?mk (c div 2 ^ k) (spec_stage_dilation dil k) = Inr (bs ! k)"
    by blast
  show ?thesis
    using bs by (simp add: Decoder_init_def bind_err_def)
qed

lemma DecodingBlock_init_conv:
  "dims \<in> {1, 2, 3} \<Longrightarrow> 0 \<le> c \<Longrightarrow>
   \<exists>b. DecodingBlock_init dflt c dims ''conv'' norm pre res pad pm act dil = Inr b"
  by (auto simp: DecodingBlock_init_def get_conv_transpose_layer_def bind_err_def Let_def)

lemma DecodingBlock_init_fields:
  assumes "DecodingBlock_init dflt c dims up norm pre res pad pm act dil = Inr b"
  shows "db_residual b = res"
    and "db_conv1 b = ConvolutionalBlock_init dflt dims (c * 3) c
                        (main_kwargs norm pre pad pm act dil)"
    and "db_conv2 b = ConvolutionalBlock_init dflt dims c c
                        (main_kwargs norm pre pad pm act dil)"
    and "db_conv_residual b =
           (if res then Some (ConvolutionalBlock_init dflt dims (c * 3) c residual_kwargs)
            else None)"
  using assms
  by (auto simp: DecodingBlock_init_def bind_err_def Let_def split: sum.splits if_splits)

text \<open>
  C5. For every stage count \<open>n \<ge> 1\<close> and every skip-channel count \<open>c\<close> divisible by
  \<open>2^(n-1)\<close>, when the block constructor succeeds on the arguments of each stage, the
  construction of the decoder returns a decoder with exactly \<open>n\<close> blocks, and the block
  of stage \<open>k\<close> is the one the block constructor returns for the skip-channel
  parameter \<open>c // 2^k\<close>: it is also the output channel count of its two convolutional
  blocks, and the halving is exact.
\<close>

theorem Decoder_init_channels:
  assumes "1 \<le> n" and "2 ^ (nat n - 1) dvd c"
    and "\<forall>k<nat n. \<exists>b. DecodingBlock_init dflt (c div 2 ^ k) dims up norm pre res pad pm act
                              (spec_stage_dilation dil k) = Inr b"
  shows "\<exists>dec. Decoder_init dflt c dims up n norm pre res pad pm act dil = Inr dec
           \<and> int (length (dec_decoding_blocks dec)) = n
           \<and> (\<forall>k<nat n. \<exists>d. DecodingBlock_init dflt (c div 2 ^ k) dims up norm pre res pad pm
                                act d = Inr (dec_decoding_blocks dec ! k)
                            \<and> cb_out_channels (db_conv1 (dec_decoding_blocks dec ! k)) = c div 2 ^ k
                            \<and> cb_out_channels (db_conv2 (dec_decoding_blocks dec ! k)) = c div 2 ^ k
                            \<and> 2 ^ k * (c div 2 ^ k) = c)"
proof -
  from Decoder_init_blocks [OF assms(3)] obtain dec where
    dec: "Decoder_init dflt c dims up n norm pre res pad pm act dil = Inr dec"
         "length (dec_decoding_blocks dec) = nat n"
         "\<forall>k<nat n. DecodingBlock_init dflt (c div 2 ^ k) dims up norm pre res pad pm act
                       (spec_stage_dilation dil k) = Inr (dec_decoding_blocks dec ! k)"
    by blast
  have "\<exists>d. DecodingBlock_init dflt (c div 2 ^ k) dims up norm pre res pad pm act d
               = Inr (dec_decoding_blocks dec ! k)
          \<and> cb_out_channels (db_conv1 (dec_decoding_blocks dec ! k)) = c div 2 ^ k
          \<and> cb_out_channels (db_conv2 (dec_decoding_blocks dec ! k)) = c div 2 ^ k
          \<and> 2 ^ k * (c div 2 ^ k) = c" if k: "k < nat n" for k
  proof -
    from dec(3) k have b: "DecodingBlock_init dflt (c div 2 ^ k) dims up norm pre res pad pm act
        (spec_stage_dilation dil k) = Inr (dec_decoding_blocks dec ! k)" by blast
    have "k \<le> nat n - 1" using k by simp
    then have "(2::int) ^ k dvd 2 ^ (nat n - 1)" by (rule le_imp_power_dvd)
    then have "(2::int) ^ k dvd c" using assms(2) by (rule dvd_trans)
    then have "2 ^ k * (c div 2 ^ k) = c" by simp
    then show ?thesis
      using b DecodingBlock_init_fields(2,3) [OF b]
      by (auto simp: ConvolutionalBlock_init_def)
  qed
  then show ?thesis using dec(1,2) assms(1) by auto
qed

theorem Decoder_init_channels_witness:
  "\<exists>dec. Decoder_init example_defaults 8 2 ''conv'' 3 None True False False ''zeros''
            (Some ''ReLU'') None = Inr dec
         \<and> int (length (dec_decoding_blocks dec)) = 3
         \<and> cb_out_channels (db_conv1 (dec_decoding_blocks dec ! 0)) = 8
         \<and> cb_out_channels (db_conv1 (dec_decoding_blocks dec ! 1)) = 4
         \<and> cb_out_channels (db_conv1 (dec_decoding_blocks dec ! 2)) = 2"
proof -
  have ok: "\<forall>k<nat 3. \<exists>b. DecodingBlock_init example_defaults (8 div 2 ^ k) 2 ''conv'' None True
      False False ''zeros'' (Some ''ReLU'') (spec_stage_dilation None k) = Inr b"
    by (intro allI impI DecodingBlock_init_conv) (simp_all add: pos_imp_zdiv_nonneg_iff)
  have n: "(1::int) \<le> 3" by simp
  have d: "(2::int) ^ (nat 3 - 1) dvd 8" by simp
  from Decoder_init_channels [OF n d ok] obtain dec where
    dec: "Decoder_init example_defaults 8 2 ''conv'' 3 None True False False ''zeros''
            (Some ''ReLU'') None = Inr dec"
         "int (length (dec_decoding_blocks dec)) = 3"
         "\<forall>k<nat 3. cb_out_channels (db_conv1 (dec_decoding_blocks dec ! k)) = 8 div 2 ^ k"
    by blast
  have "cb_out_channels (db_conv1 (dec_decoding_blocks dec ! 0)) = 8 div 2 ^ 0"
       "cb_out_channels (db_conv1 (dec_decoding_blocks dec ! 1)) = 8 div 2 ^ 1"
       "cb_out_channels (db_conv1 (dec_decoding_blocks dec ! 2)) = 8 div 2 ^ 2"
    using dec(3) by simp_all
  then show ?thesis using dec(1,2) by (intro exI [of _ dec]) simp
qed

text \<open>
  C6. For every initial dilation, when the block constructor succeeds on the arguments
  of each stage, the block of stage \<open>k\<close> is the one the block constructor returns for
  the dilation \<open>d // 2^k\<close> when the initial dilation is an integer \<open>d\<close>, and for \<open>None\<close>
  when it is \<open>None\<close>; that value is the dilation of its two convolutional blocks. Once
  \<open>d // 2^j\<close> is 0, every later stage gets the integer 0: it is neither replaced by
  \<open>None\<close> nor raised to 1.
\<close>

theorem Decoder_init_dilation:
  assumes "\<forall>k<nat n. \<exists>b. DecodingBlock_init dflt (c div 2 ^ k) dims up norm pre res pad pm act
                              (spec_stage_dilation dil k) = Inr b"
  shows "\<exists>dec. Decoder_init dflt c dims up n norm pre res pad pm act dil = Inr dec
           \<and> (\<forall>k<nat n.
                 (\<exists>ch. DecodingBlock_init dflt ch dims up norm pre res pad pm act
                         (case dil of None \<Rightarrow> None | Some d \<Rightarrow> Some (d div 2 ^ k))
                       = Inr (dec_decoding_blocks dec ! k))
                 \<and> cb_dilation (db_conv1 (dec_decoding_blocks dec ! k))
                     = (case dil of None \<Rightarrow> None | Some d \<Rightarrow> Some (d div 2 ^ k))
                 \<and> cb_dilation (db_conv2 (dec_decoding_blocks dec ! k))
                     = (case dil of None \<Rightarrow> None | Some d \<Rightarrow> Some (d div 2 ^ k))
                 \<and> (\<forall>d j. dil = Some d \<and> j \<le> k \<and> d div 2 ^ j = 0
                      \<longrightarrow> cb_dilation (db_conv1 (dec_decoding_blocks dec ! k)) = Some 0))"
proof -
  from Decoder_init_blocks [OF assms] obtain dec where
    dec: "Decoder_init dflt c dims up n norm pre res pad pm act dil = Inr dec"
         "\<forall>k<nat n. DecodingBlock_init dflt (c div 2 ^ k) dims up norm pre res pad pm act
                       (spec_stage_dilation dil k) = Inr (dec_decoding_blocks dec ! k)"
    by blast
  have zero: "d div 2 ^ k = 0" if "j \<le> k" "d div 2 ^ j = 0" for d :: int and j k
  proof -
    have "d div 2 ^ k = d div (2 ^ j * 2 ^ (k - j))"
      using that(1) by (simp flip: power_add)
    also have "\<dots> = d div 2 ^ j div 2 ^ (k - j)"
      by (simp add: zdiv_zmult2_eq)
    finally show ?thesis using that(2) by simp
  qed
  have "(\<exists>ch. DecodingBlock_init dflt ch dims up norm pre res pad pm act
                 (case dil of None \<Rightarrow> None | Some d \<Rightarrow> Some (d div 2 ^ k))
               = Inr (dec_decoding_blocks dec ! k))
        \<and> cb_dilation (db_conv1 (dec_decoding_blocks dec ! k))
            = (case dil of None \<Rightarrow> None | Some d \<Rightarrow> Some (d div 2 ^ k))
        \<and> cb_dilation (db_conv2 (dec_decoding_blocks dec ! k))
            = (case dil of None \<Rightarrow> None | Some d \<Rightarrow> Some (d div 2 ^ k))
        \<and> (\<forall>d j. dil = Some d \<and> j \<le> k \<and> d div 2 ^ j = 0
              \<longrightarrow> cb_dilation (db_conv1 (dec_decoding_blocks dec ! k)) = Some 0)"
    if k: "k < nat n" for k
  proof -
    from dec(2) k have b: "DecodingBlock_init dflt (c div 2 ^ k) dims up norm pre res pad pm act
        (spec_stage_dilation dil k) = Inr (dec_decoding_blocks dec ! k)" by blast
    have d1: "cb_dilation (db_conv1 (dec_decoding_blocks dec ! k)) = spec_stage_dilation dil k"
      and d2: "cb_dilation (db_conv2 (dec_decoding_blocks dec ! k)) = spec_stage_dilation dil k"
      using DecodingBlock_init_fields(2,3) [OF b]
      by (simp_all add: ConvolutionalBlock_init_def main_kwargs_def keyword_def)
    have eq: "spec_stage_dilation dil k = (case dil of None \<Rightarrow> None | Some d \<Rightarrow> Some (d div 2 ^ k))"
      by (simp add: spec_stage_dilation_def)
    show ?thesis
      using b d1 d2 zero unfolding eq by (auto split: option.splits)
  qed
  then show ?thesis using dec(1) by blast
qed

theorem Decoder_init_dilation_witness:
  "\<exists>dec. Decoder_init example_defaults 8 2 ''conv'' 4 None True False False ''zeros''
            (Some ''ReLU'') (Some 5) = Inr dec
         \<and> cb_dilation (db_conv1 (dec_decoding_blocks dec ! 0)) = Some 5
         \<and> cb_dilation (db_conv1 (dec_decoding_blocks dec ! 1)) = Some 2
         \<and> cb_dilation (db_conv1 (dec_decoding_blocks dec ! 2)) = Some 1
         \<and> cb_dilation (db_conv1 (dec_decoding_blocks dec ! 3)) = Some 0
         \<and> cb_dilation (db_conv2 (dec_decoding_blocks dec ! 3)) = Some 0"
proof -
  have ok: "\<forall>k<nat 4. \<exists>b. DecodingBlock_init example_defaults (8 div 2 ^ k) 2 ''conv'' None True
      False False ''zeros'' (Some ''ReLU'') (spec_stage_dilation (Some 5) k) = Inr b"
    by (intro allI impI DecodingBlock_init_conv) (simp_all add: pos_imp_zdiv_nonneg_iff)
  from Decoder_init_dilation [OF ok] obtain dec where
    dec: "Decoder_init example_defaults 8 2 ''conv'' 4 None True False False ''zeros''
            (Some ''ReLU'') (Some 5) = Inr dec"
         "\<forall>k<nat 4. cb_dilation (db_conv1 (dec_decoding_blocks dec ! k)) = Some (5 div 2 ^ k)
                   \<and> cb_dilation (db_conv2 (dec_decoding_blocks dec ! k)) = Some (5 div 2 ^ k)"
    by auto
  have "cb_dilation (db_conv1 (dec_decoding_blocks dec ! 0)) = Some (5 div 2 ^ 0)"
       "cb_dilation (db_conv1 (dec_decoding_blocks dec ! 1)) = Some (5 div 2 ^ 1)"
       "cb_dilation (db_conv1 (dec_decoding_blocks dec ! 2)) = Some (5 div 2 ^ 2)"
       "cb_dilation (db_conv1 (dec_decoding_blocks dec ! 3)) = Some (5 div 2 ^ 3)"
       "cb_dilation (db_conv2 (dec_decoding_blocks dec ! 3)) = Some (5 div 2 ^ 3)"
    using dec(2) by simp_all
  then show ?thesis using dec(1) by (intro exI [of _ dec]) simp
qed

subsection \<open>The residual path of a block\<close>

text \<open>
  C10. In a block built with \<open>residual=True\<close> the residual convolutional block is
  constructed with kernel size 1, normalization \<open>None\<close> and activation \<open>None\<close> and no
  other keyword: the call passes no \<open>preactivation\<close>, \<open>padding\<close>, \<open>padding_mode\<close> or
  \<open>dilation\<close>, so the residual block has the defaults of \<open>ConvolutionalBlock\<close> for these
  four settings, whatever the values the block itself received and gave to \<open>conv1\<close>.
\<close>

theorem conv_residual_uses_defaults:
  assumes "DecodingBlock_init dflt c dims up norm pre True pad pm act dil = Inr blk"
  shows "\<exists>cr. db_conv_residual blk = Some cr
           \<and> cr = ConvolutionalBlock_init dflt dims (c * 3) c residual_kwargs
           \<and> kw_preactivation residual_kwargs = None
           \<and> kw_padding residual_kwargs = None
           \<and> kw_padding_mode residual_kwargs = None
           \<and> kw_dilation residual_kwargs = None
           \<and> cb_kernel_size cr = 1
           \<and> cb_normalization cr = None
           \<and> cb_activation cr = None
           \<and> cb_preactivation cr = default_preactivation dflt
           \<and> cb_padding cr = default_padding dflt
           \<and> cb_padding_mode cr = default_padding_mode dflt
           \<and> cb_dilation cr = default_dilation dflt
           \<and> cb_preactivation (db_conv1 blk) = pre
           \<and> cb_padding (db_conv1 blk) = pad
           \<and> cb_padding_mode (db_conv1 blk) = pm
           \<and> cb_dilation (db_conv1 blk) = dil"
  using DecodingBlock_init_fields [OF assms]
  by (simp add: ConvolutionalBlock_init_def residual_kwargs_def main_kwargs_def keyword_def)

theorem conv_residual_uses_defaults_witness:
  "\<exists>blk cr. DecodingBlock_init example_defaults 4 3 ''conv'' (Some ''batch'') True True True
               ''reflect'' (Some ''PReLU'') (Some 2) = Inr blk
       \<and> db_conv_residual blk = Some cr
       \<and> cb_kernel_size cr = 1 \<and> cb_normalization cr = None \<and> cb_activation cr = None
       \<and> cb_preactivation cr = False \<and> cb_preactivation (db_conv1 blk) = True
       \<and> cb_padding cr = False \<and> cb_padding (db_conv1 blk) = True
       \<and> cb_padding_mode cr = ''zeros'' \<and> cb_padding_mode (db_conv1 blk) = ''reflect''
       \<and> cb_dilation cr = None \<and> cb_dilation (db_conv1 blk) = Some 2"
proof -
  have "\<exists>blk. DecodingBlock_init example_defaults 4 3 ''conv'' (Some ''batch'') True
      True True ''reflect'' (Some ''PReLU'') (Some 2) = Inr blk"
    by (rule DecodingBlock_init_conv) simp_all
  then obtain blk where blk: "DecodingBlock_init example_defaults 4 3 ''conv'' (Some ''batch'')
      True True True ''reflect'' (Some ''PReLU'') (Some 2) = Inr blk"
    by blast
  from conv_residual_uses_defaults [OF blk] show ?thesis
    using blk by (auto simp: example_defaults_def)
qed

subsection \<open>The forward pass of a decoder\<close>

text \<open>The definitions a concrete run unfolds.\<close>

lemmas eval_defs =
  Decoder_init_def DecodingBlock_init_def get_conv_transpose_layer_def bind_err_def
  ConvolutionalBlock_init_def main_kwargs_def residual_kwargs_def keyword_def example_defaults_def
  Decoder_forward_def DecodingBlock_forward_def apply_upsample_def center_crop_def crop_pad_def
  tensor_sub_def pad_shape_def cat_shape_def iadd_shape_def conv_block_shape_def
  conv_transpose_shape_def keep_extents_def example_engine_def shape_engine_def
  CHANNELS_DIMENSION_def

text \<open>
  One more pair at the end of the zipped list is one more stage after the others, and
  the first \<open>k\<close> pairs are the first \<open>k\<close> stages of the specification.
\<close>

lemma Decoder_forward_loop_snoc:
  "Decoder_forward_loop eng (ps @ [(s, b)]) x
   = bind_err (Decoder_forward_loop eng ps x) (\<lambda>y. DecodingBlock_forward eng b s y)"
proof (induction ps arbitrary: x)
  case Nil
  show ?case by (simp add: bind_err_def split: sum.splits)
next
  case (Cons p ps)
  obtain s' b' where p: "p = (s', b')" by (cases p)
  show ?case
    by (cases "DecodingBlock_forward eng b' s' x") (simp_all add: p Cons.IH bind_err_def)
qed

lemma Decoder_forward_loop_stages:
  "k \<le> length skips \<Longrightarrow> k \<le> length blocks \<Longrightarrow>
   Decoder_forward_loop eng (take k (zip (rev skips) blocks)) x
   = spec_stage_output eng blocks skips x k"
proof (induction k)
  case 0
  show ?case by simp
next
  case (Suc k)
  have k: "k < length (zip (rev skips) blocks)" using Suc.prems by simp
  have nth: "zip (rev skips) blocks ! k = (skips ! (length skips - 1 - k), blocks ! k)"
    using Suc.prems by (simp add: rev_nth)
  have "take (Suc k) (zip (rev skips) blocks)
        = take k (zip (rev skips) blocks) @ [(skips ! (length skips - 1 - k), blocks ! k)]"
    using take_Suc_conv_app_nth [OF k] nth by simp
  then show ?case
    using Suc by (simp add: Decoder_forward_loop_snoc)
qed

lemma Decoder_forward_stages:
  "Decoder_forward eng dec skips x
   = spec_stage_output eng (dec_decoding_blocks dec) skips x
       (min (length skips) (length (dec_decoding_blocks dec)))"
proof -
  let ?m = "min (length skips) (length (dec_decoding_blocks dec))"
  have "take ?m (zip (rev skips) (dec_decoding_blocks dec)) = zip (rev skips) (dec_decoding_blocks dec)"
    by simp
  then show ?thesis
    using Decoder_forward_loop_stages [of ?m skips "dec_decoding_blocks dec" eng x]
    by (simp add: Decoder_forward_def)
qed

text \<open>
  C3. When there are as many skip connections as blocks, \<open>Decoder.forward\<close> returns
  what the stages of the specification return: stage \<open>k\<close> applies block \<open>k\<close> to the
  skip connection at reverse index \<open>k\<close> and to the result of stage \<open>k - 1\<close>. The pairs
  the loop runs over are exactly these, one for each block, so each block is applied
  once, the first block with the last skip connection and the last block with the first.
\<close>

theorem Decoder_forward_reverse_pairing:
  assumes "length skips = length (dec_decoding_blocks dec)"
  shows "Decoder_forward eng dec skips x
         = spec_stage_output eng (dec_decoding_blocks dec) skips x (length (dec_decoding_blocks dec))
       \<and> zip (rev skips) (dec_decoding_blocks dec)
         = map (\<lambda>k. (skips ! (length skips - 1 - k), dec_decoding_blocks dec ! k))
             [0..<length (dec_decoding_blocks dec)]"
proof
  show "Decoder_forward eng dec skips x
        = spec_stage_output eng (dec_decoding_blocks dec) skips x (length (dec_decoding_blocks dec))"
    using Decoder_forward_stages [of eng dec skips x] assms by simp
  show "zip (rev skips) (dec_decoding_blocks dec)
        = map (\<lambda>k. (skips ! (length skips - 1 - k), dec_decoding_blocks dec ! k))
            [0..<length (dec_decoding_blocks dec)]"
  proof (rule nth_equalityI)
    show "length (zip (rev skips) (dec_decoding_blocks dec))
          = length (map (\<lambda>k. (skips ! (length skips - 1 - k), dec_decoding_blocks dec ! k))
                     [0..<length (dec_decoding_blocks dec)])"
      using assms by simp
  next
    fix i assume "i < length (zip (rev skips) (dec_decoding_blocks dec))"
    then have i: "i < length skips" "i < length (dec_decoding_blocks dec)" by simp_all
    then show "zip (rev skips) (dec_decoding_blocks dec) ! i
               = map (\<lambda>k. (skips ! (length skips - 1 - k), dec_decoding_blocks dec ! k))
                   [0..<length (dec_decoding_blocks dec)] ! i"
      by (simp add: rev_nth)
  qed
qed

theorem Decoder_forward_reverse_pairing_witness:
  "\<exists>dec. Decoder_init example_defaults 8 1 ''conv'' 2 None True True False ''zeros''
            (Some ''ReLU'') None = Inr dec
       \<and> length [[1, 4, 16], [1, 8, 8 :: nat]] = length (dec_decoding_blocks dec)
       \<and> Decoder_forward example_engine dec [[1, 4, 16], [1, 8, 8]] [1, 16, 4] = Inr [1, 4, 16]
       \<and> spec_stage_output example_engine (dec_decoding_blocks dec) [[1, 4, 16], [1, 8, 8]]
           [1, 16, 4] (length (dec_decoding_blocks dec)) = Inr [1, 4, 16]"
proof -
  obtain dec where dec: "Decoder_init example_defaults 8 1 ''conv'' 2 None True True False
      ''zeros'' (Some ''ReLU'') None = Inr dec"
    by (simp add: eval_defs numeral_2_eq_2)
  have len: "length [[1, 4, 16], [1, 8, 8 :: nat]] = length (dec_decoding_blocks dec)"
    using dec by (auto simp: eval_defs numeral_2_eq_2)
  have val: "Decoder_forward example_engine dec [[1, 4, 16], [1, 8, 8]] [1, 16, 4]
             = Inr [1, 4, 16]"
    using dec by (auto simp: eval_defs numeral_2_eq_2)
  from Decoder_forward_reverse_pairing [OF len, of example_engine "[1, 16, 4]"]
  show ?thesis using dec len val by (intro exI [of _ dec]) simp
qed

text \<open>
  C7. When the number of skip connections differs from the number of blocks, the
  loop has as many rounds as the shorter of the two sequences and \<open>Decoder.forward\<close>
  returns the result of that many stages of the specification: the mismatch raises
  nothing, a result of these stages is the result of the call, and with no skip
  connection or no block the input comes back unchanged.
\<close>

theorem Decoder_forward_truncates:
  assumes "length skips \<noteq> length (dec_decoding_blocks dec)"
  shows "Decoder_forward eng dec skips x
         = spec_stage_output eng (dec_decoding_blocks dec) skips x
             (min (length skips) (length (dec_decoding_blocks dec)))
       \<and> length (zip (rev skips) (dec_decoding_blocks dec))
         = min (length skips) (length (dec_decoding_blocks dec))
       \<and> (\<forall>y. spec_stage_output eng (dec_decoding_blocks dec) skips x
                 (min (length skips) (length (dec_decoding_blocks dec))) = Inr y
              \<longrightarrow> Decoder_forward eng dec skips x = Inr y)
       \<and> (skips = [] \<or> dec_decoding_blocks dec = [] \<longrightarrow> Decoder_forward eng dec skips x = Inr x)"
  using Decoder_forward_stages [of eng dec skips x]
  by (auto simp: Decoder_forward_def)

theorem Decoder_forward_truncates_witness:
  "\<exists>dec. Decoder_init example_defaults 8 1 ''conv'' 2 None True True False ''zeros''
            (Some ''ReLU'') None = Inr dec
       \<and> length [[1, 2, 99], [1, 4, 16], [1, 8, 8 :: nat]] \<noteq> length (dec_decoding_blocks dec)
       \<and> min (length [[1, 2, 99], [1, 4, 16], [1, 8, 8 :: nat]]) (length (dec_decoding_blocks dec)) = 2
       \<and> Decoder_forward example_engine dec [[1, 2, 99], [1, 4, 16], [1, 8, 8]] [1, 16, 4]
           = Inr [1, 4, 16]
       \<and> spec_stage_output example_engine (dec_decoding_blocks dec)
           [[1, 2, 99], [1, 4, 16], [1, 8, 8]] [1, 16, 4] 2 = Inr [1, 4, 16]"
proof -
  obtain dec where dec: "Decoder_init example_defaults 8 1 ''conv'' 2 None True True False
      ''zeros'' (Some ''ReLU'') None = Inr dec"
    by (simp add: eval_defs numeral_2_eq_2)
  have len: "length [[1, 2, 99], [1, 4, 16], [1, 8, 8 :: nat]] \<noteq> length (dec_decoding_blocks dec)"
    and m: "min (length [[1, 2, 99], [1, 4, 16], [1, 8, 8 :: nat]])
              (length (dec_decoding_blocks dec)) = 2"
    using dec by (auto simp: eval_defs numeral_2_eq_2)
  have val: "Decoder_forward example_engine dec [[1, 2, 99], [1, 4, 16], [1, 8, 8]] [1, 16, 4]
             = Inr [1, 4, 16]"
    using dec by (auto simp: eval_defs numeral_2_eq_2)
  from Decoder_forward_truncates [OF len, of example_engine "[1, 16, 4]"]
  show ?thesis using dec len val m by (intro exI [of _ dec]) simp
qed

subsection \<open>The forward pass of a block\<close>

text \<open>
  C4. For every tensor engine and every input pair, a block built with
  \<open>residual=True\<close> returns a value exactly when
  \<open>conv2(conv1(concat)) + conv_residual(concat)\<close> has one, and then this one, where
  \<open>concat\<close> is the concatenation along the channel axis of the cropped skip connection
  and the upsampled \<open>x\<close>; a block built with \<open>residual=False\<close> returns
  \<open>conv2(conv1(concat))\<close>. With the residual path the code calls \<open>conv_residual\<close>
  before \<open>conv1\<close>, so when both raise it is the exception of \<open>conv_residual\<close> that
  leaves the call; the values agree.
\<close>

theorem DecodingBlock_forward_residual:
  assumes "DecodingBlock_init dflt c dims up norm pre residual pad pm act dil = Inr blk"
  shows "if residual
         then (\<forall>v. DecodingBlock_forward eng blk skip x = Inr v
                 \<longleftrightarrow> bind_err (spec_concat eng blk skip x) (spec_residual_output eng blk) = Inr v)
         else DecodingBlock_forward eng blk skip x
                = bind_err (spec_concat eng blk skip x) (spec_plain_output eng blk)"
proof (cases residual)
  case True
  from DecodingBlock_init_fields(1,4) [OF assms] True
  obtain cr where cr: "db_residual blk" "db_conv_residual blk = Some cr"
    by auto
  show ?thesis
    using True cr
    by (auto simp: DecodingBlock_forward_def spec_concat_def spec_residual_output_def
          spec_plain_output_def bind_err_def CHANNELS_DIMENSION_def split: sum.splits)
next
  case False
  from DecodingBlock_init_fields(1) [OF assms] False have "\<not> db_residual blk" by simp
  then show ?thesis
    using False
    by (auto simp: DecodingBlock_forward_def spec_concat_def spec_plain_output_def bind_err_def
          CHANNELS_DIMENSION_def split: sum.splits)
qed

theorem DecodingBlock_forward_residual_witness:
  "(\<exists>blk. DecodingBlock_init example_defaults 4 1 ''conv'' None True True False ''zeros''
             (Some ''ReLU'') None = Inr blk
      \<and> DecodingBlock_forward example_engine blk [1, 4, 8] [1, 8, 4] = Inr [1, 4, 8]
      \<and> bind_err (spec_concat example_engine blk [1, 4, 8] [1, 8, 4])
           (spec_residual_output example_engine blk) = Inr [1, 4, 8])
   \<and> (\<exists>blk. DecodingBlock_init example_defaults 4 1 ''conv'' None True False False ''zeros''
             (Some ''ReLU'') None = Inr blk
      \<and> DecodingBlock_forward example_engine blk [1, 4, 8] [1, 8, 4] = Inr [1, 4, 8]
      \<and> bind_err (spec_concat example_engine blk [1, 4, 8] [1, 8, 4])
           (spec_plain_output example_engine blk) = Inr [1, 4, 8])"
proof
  obtain blk where blk: "DecodingBlock_init example_defaults 4 1 ''conv'' None True True False
      ''zeros'' (Some ''ReLU'') None = Inr blk"
    by (simp add: eval_defs)
  have val: "DecodingBlock_forward example_engine blk [1, 4, 8] [1, 8, 4] = Inr [1, 4, 8]"
    using blk by (auto simp: eval_defs)
  from DecodingBlock_forward_residual [OF blk, of example_engine "[1, 4, 8]" "[1, 8, 4]"] val
  have "bind_err (spec_concat example_engine blk [1, 4, 8] [1, 8, 4])
          (spec_residual_output example_engine blk) = Inr [1, 4, 8]"
    by simp
  then show "\<exists>blk. DecodingBlock_init example_defaults 4 1 ''conv'' None True True False ''zeros''
             (Some ''ReLU'') None = Inr blk
      \<and> DecodingBlock_forward example_engine blk [1, 4, 8] [1, 8, 4] = Inr [1, 4, 8]
      \<and> bind_err (spec_concat example_engine blk [1, 4, 8] [1, 8, 4])
           (spec_residual_output example_engine blk) = Inr [1, 4, 8]"
    using blk val by blast
next
  obtain blk where blk: "DecodingBlock_init example_defaults 4 1 ''conv'' None True False False
      ''zeros'' (Some ''ReLU'') None = Inr blk"
    by (simp add: eval_defs)
  have val: "DecodingBlock_forward example_engine blk [1, 4, 8] [1, 8, 4] = Inr [1, 4, 8]"
    using blk by (auto simp: eval_defs)
  from DecodingBlock_forward_residual [OF blk, of example_engine "[1, 4, 8]" "[1, 8, 4]"] val
  have "bind_err (spec_concat example_engine blk [1, 4, 8] [1, 8, 4])
          (spec_plain_output example_engine blk) = Inr [1, 4, 8]"
    by simp
  then show "\<exists>blk. DecodingBlock_init example_defaults 4 1 ''conv'' None True False False ''zeros''
             (Some ''ReLU'') None = Inr blk
      \<and> DecodingBlock_forward example_engine blk [1, 4, 8] [1, 8, 4] = Inr [1, 4, 8]
      \<and> bind_err (spec_concat example_engine blk [1, 4, 8] [1, 8, 4])
           (spec_plain_output example_engine blk) = Inr [1, 4, 8]"
    using blk val by blast
qed

subsection \<open>An odd crop\<close>

text \<open>
  The descriptor \<open>center_crop\<close> builds has the same amount twice for each axis, so
  whatever axis a pair lands on, the extent of that axis changes by an even number.
\<close>

lemma transpose_pair: "transpose [xs, xs] = map (\<lambda>h. [h, h]) xs"
  by (induction xs) simp_all

lemma pad_pairs_doubled:
  "pad_pairs (map uminus (concat (map (\<lambda>h. [h, h]) hc))) = map (\<lambda>h. (- h, - h)) hc"
  by (induction hc) simp_all

lemma length_doubled: "length (concat (map (\<lambda>h. [h, h]) hc)) = 2 * length hc"
  by (induction hc) simp_all

lemma crop_pad_pairs:
  assumes "crop_pad skip_shape x_shape = Inr pad"
  shows "\<exists>hc. pad = map uminus (concat (map (\<lambda>h. [h, h]) hc))"
proof -
  from assms obtain crop where
    "pad = map uminus (concat (transpose [map (\<lambda>c. c div 2) crop, map (\<lambda>c. c div 2) crop]))"
    by (auto simp: crop_pad_def bind_err_def Let_def split: sum.splits)
  then have "pad = map uminus (concat (map (\<lambda>h. [h, h]) (map (\<lambda>c. c div 2) crop)))"
    by (simp only: transpose_pair)
  then show ?thesis by blast
qed

lemma length_pad_pairs: "length (pad_pairs p) = length p div 2"
  by (induction p rule: pad_pairs.induct) simp_all

lemma pad_shape_Inr:
  assumes "pad_shape shp pad = Inr r"
  shows "length pad div 2 \<le> length shp"
    and "r = take (length shp - length pad div 2) shp
             @ map nat (map2 (\<lambda>s (l, r). int s + l + r)
                 (drop (length shp - length pad div 2) shp) (rev (pad_pairs pad)))"
    and "\<not> list_ex (\<lambda>e. e < 0) (map2 (\<lambda>s (l, r). int s + l + r)
                 (drop (length shp - length pad div 2) shp) (rev (pad_pairs pad)))"
proof -
  have c: "\<not> (odd (length pad) \<or> length shp < length pad div 2)"
    using assms unfolding pad_shape_def by (cases "odd (length pad) \<or> length shp < length pad div 2") simp_all
  then show "length pad div 2 \<le> length shp" by simp
  let ?ext = "map2 (\<lambda>s (l, r). int s + l + r)
                 (drop (length shp - length pad div 2) shp) (rev (pad_pairs pad))"
  have eq: "pad_shape shp pad = (if list_ex (\<lambda>e. e < 0) ?ext then Inl RuntimeError
        else Inr (take (length shp - length pad div 2) shp @ map nat ?ext))"
    unfolding pad_shape_def using c by (simp only: if_False Let_def)
  show "\<not> list_ex (\<lambda>e. e < 0) ?ext"
    using assms unfolding eq by (cases "list_ex (\<lambda>e. e < 0) ?ext") simp_all
  then show "r = take (length shp - length pad div 2) shp @ map nat ?ext"
    using assms unfolding eq by simp
qed

lemma pad_shape_length:
  assumes "pad_shape shp pad = Inr r"
  shows "length r = length shp"
  using pad_shape_Inr(1) [OF assms]
  by (subst pad_shape_Inr(2) [OF assms]) (simp add: length_pad_pairs)

lemma pad_shape_parity:
  assumes "pad_shape shp (map uminus (concat (map (\<lambda>h. [h, h]) hc))) = Inr r"
    and "j < length shp"
  shows "even (int (r ! j) - int (shp ! j))"
proof -
  let ?k = "length hc"
  define ext where "ext = map2 (\<lambda>s (l, r). int s + l + r) (drop (length shp - ?k) shp)
                (rev (map (\<lambda>h. (- h, - h)) hc))"
  from pad_shape_Inr(1) [OF assms(1)] have k: "?k \<le> length shp"
    by (simp add: length_doubled)
  from pad_shape_Inr(2) [OF assms(1)] have r: "r = take (length shp - ?k) shp @ map nat ext"
    by (simp add: length_doubled pad_pairs_doubled ext_def)
  from pad_shape_Inr(3) [OF assms(1)] have nonneg: "\<not> list_ex (\<lambda>e. e < 0) ext"
    by (simp add: length_doubled pad_pairs_doubled ext_def)
  have len_ext: "length ext = ?k" using k by (simp add: ext_def)
  show ?thesis
  proof (cases "j < length shp - ?k")
    case True
    then show ?thesis by (simp add: r nth_append)
  next
    case False
    define i where "i = j - (length shp - ?k)"
    have i: "i < ?k" using False assms(2) k by (simp add: i_def)
    have j: "j = (length shp - ?k) + i" using False by (simp add: i_def)
    have rj: "r ! j = nat (ext ! i)"
      using i len_ext False by (simp add: r nth_append i_def)
    have "i < length ext" using i len_ext by simp
    then have "ext ! i \<in> set ext" by (rule nth_mem)
    moreover have "\<forall>e\<in>set ext. \<not> e < 0"
      using nonneg unfolding list_ex_iff by blast
    ultimately have ge: "0 \<le> ext ! i" by fastforce
    have nth: "ext ! i = int (shp ! j) + - (rev hc ! i) + - (rev hc ! i)"
      using i k by (simp add: ext_def j rev_map)
    have "int (r ! j) = ext ! i" using rj ge by simp
    then show ?thesis unfolding nth by simp
  qed
qed

lemma cat_shape_Inr_nth:
  assumes "cat_shape a b 1 = Inr r" and "2 \<le> i" and "i < length a"
  shows "length a = length b \<and> a ! i = b ! i"
proof -
  from assms(1) have l: "length a = length b" and d: "drop 2 a = drop 2 b"
    by (auto simp: cat_shape_def numeral_2_eq_2 split: if_splits)
  from assms(2) obtain m where m: "i = 2 + m" by (metis le_Suc_ex)
  have "a ! i = drop 2 a ! m" using assms(3) by (simp add: m)
  also have "\<dots> = drop 2 b ! m" using d by simp
  also have "\<dots> = b ! i" using assms(3) l by (simp add: m)
  finally show ?thesis using l by simp
qed

lemma crop_then_cat_odd_fails:
  assumes "2 \<le> i" and "i < length skip" and "odd (int (skip ! i) - int (x1 ! i))"
  shows "\<nexists>r. bind_err (center_crop (shape_engine interp convt spatial) skip x1)
           (\<lambda>sk. cat_fn (shape_engine interp convt spatial) sk x1 CHANNELS_DIMENSION) = Inr r"
proof
  let ?E = "shape_engine interp convt spatial"
  assume "\<exists>r. bind_err (center_crop ?E skip x1) (\<lambda>sk. cat_fn ?E sk x1 CHANNELS_DIMENSION) = Inr r"
  then obtain sk r where sk: "center_crop ?E skip x1 = Inr sk"
    and cat: "cat_shape sk x1 1 = Inr r"
    by (auto simp: bind_err_def shape_engine_def CHANNELS_DIMENSION_def split: sum.splits)
  from sk obtain pad where pad: "crop_pad skip x1 = Inr pad" and ps: "pad_shape skip pad = Inr sk"
    by (auto simp: center_crop_def bind_err_def shape_engine_def split: sum.splits)
  from crop_pad_pairs [OF pad] obtain hc where
    hc: "pad = map uminus (concat (map (\<lambda>h. [h, h]) hc))" by blast
  have len: "length sk = length skip" using ps by (rule pad_shape_length)
  have par: "even (int (sk ! i) - int (skip ! i))"
    using pad_shape_parity [OF ps [unfolded hc] assms(2)] .
  have "sk ! i = x1 ! i"
    using cat_shape_Inr_nth [OF cat assms(1)] assms(2) len by simp
  with par have "even (int (x1 ! i) - int (skip ! i))" by simp
  with assms(3) show False by presburger
qed

lemma crop_then_cat_errors:
  "bind_err (center_crop (shape_engine interp convt spatial) skip x1)
     (\<lambda>sk. cat_fn (shape_engine interp convt spatial) sk x1 CHANNELS_DIMENSION) = Inl err
   \<Longrightarrow> err = RuntimeError"
  by (auto simp: bind_err_def center_crop_def crop_pad_def tensor_sub_def pad_shape_def
        cat_shape_def shape_engine_def Let_def split: sum.splits if_splits)

lemma forward_after_upsample:
  assumes "apply_upsample eng (db_upsample blk) x0 = Inr x1"
    and "bind_err (center_crop eng skip x1) (\<lambda>sk. cat_fn eng sk x1 CHANNELS_DIMENSION) = Inl err"
  shows "DecodingBlock_forward eng blk skip x0 = Inl err"
  using assms
  by (auto simp: DecodingBlock_forward_def bind_err_def split: sum.splits)

lemma odd_crop_forward_fails:
  assumes "apply_upsample (shape_engine interp convt spatial) (db_upsample blk) x0 = Inr x1"
    and "2 \<le> i" and "i < length skip" and "odd (int (skip ! i) - int (x1 ! i))"
  shows "DecodingBlock_forward (shape_engine interp convt spatial) blk skip x0 = Inl RuntimeError"
proof -
  let ?E = "shape_engine interp convt spatial"
  let ?r = "bind_err (center_crop ?E skip x1) (\<lambda>sk. cat_fn ?E sk x1 CHANNELS_DIMENSION)"
  from crop_then_cat_odd_fails [OF assms(2,3,4)] obtain err where err: "?r = Inl err"
    by (cases ?r) auto
  then have "err = RuntimeError" by (rule crop_then_cat_errors)
  with err forward_after_upsample [OF assms(1)] show ?thesis by simp
qed

lemma one_axis_crop:
  assumes "odd (int s - int e)"
  shows "center_crop (shape_engine interp convt spatial) [n, c, s] [n', c', e] = Inr [n, c, Suc e]"
    and "int (Suc e) = int s - 2 * ((int s - int e) div 2)"
proof -
  define h where "h = (int s - int e) div 2"
  from assms have se: "int s - int e = 2 * h + 1"
    unfolding h_def by presburger
  then have ext: "int s + - h + - h = int e + 1" by simp
  show "int (Suc e) = int s - 2 * ((int s - int e) div 2)"
    using se unfolding h_def [symmetric] by simp
  have pad: "crop_pad [n, c, s] [n', c', e] = Inr [- h, - h]"
    by (simp add: crop_pad_def tensor_sub_def bind_err_def h_def)
  have ext': "int s - 2 * h = int (Suc e)" using se by simp
  have "pad_shape [n, c, s] [- h, - h] = Inr [n, c, Suc e]"
    unfolding pad_shape_def by (simp add: ext' del: of_nat_Suc)
  then show "center_crop (shape_engine interp convt spatial) [n, c, s] [n', c', e]
             = Inr [n, c, Suc e]"
    by (simp add: center_crop_def shape_engine_def pad bind_err_def)
qed

text \<open>
  When the two tensors have the same rank and the half crops read the same from the
  last axis to the first (one spatial axis, or the same crop on every axis),
  \<open>center_crop\<close> returns, and every spatial axis loses its own half crop on each side.
\<close>

lemma crop_pad_equal_rank:
  assumes "length skip = length x1"
  shows "crop_pad skip x1
         = Inr (map uminus (concat (map (\<lambda>h. [h, h]) (half_crops skip x1))))"
proof -
  let ?crop = "map2 (\<lambda>u v. u - v) (drop 2 (map int skip)) (drop 2 (map int x1))"
  have sub: "tensor_sub (drop 2 (map int skip)) (drop 2 (map int x1)) = Inr ?crop"
    using assms by (simp add: tensor_sub_def)
  have hc: "map (\<lambda>c. c div 2) ?crop = half_crops skip x1"
    by (simp add: half_crops_def drop_map zip_map_map split_def)
  show ?thesis
    unfolding crop_pad_def sub bind_err_def
    by (simp only: sum.case Let_def hc transpose_pair)
qed

lemma length_half_crops:
  "length skip = length x1 \<Longrightarrow> length (half_crops skip x1) = length skip - 2"
  by (simp add: half_crops_def)

lemma half_crops_nth:
  assumes "length skip = length x1" and "2 \<le> j" and "j < length skip"
  shows "half_crops skip x1 ! (j - 2) = (int (skip ! j) - int (x1 ! j)) div 2"
proof -
  from assms(2) obtain m where m: "j = 2 + m" by (metis le_Suc_ex)
  show ?thesis using assms(1,3) by (simp add: half_crops_def m)
qed

lemma pad_shape_symmetric:
  assumes len: "length hc \<le> length shp"
    and sym: "rev hc = hc"
    and nonneg: "\<forall>i<length hc. 0 \<le> int (shp ! (length shp - length hc + i)) - 2 * (hc ! i)"
  shows "\<exists>r. pad_shape shp (map uminus (concat (map (\<lambda>h. [h, h]) hc))) = Inr r
           \<and> length r = length shp
           \<and> (\<forall>i<length hc. int (r ! (length shp - length hc + i))
                  = int (shp ! (length shp - length hc + i)) - 2 * (hc ! i))"
proof -
  let ?k = "length hc"
  define ext where "ext = map2 (\<lambda>s (l, r). int s + l + r) (drop (length shp - ?k) shp)
                (rev (map (\<lambda>h. (- h, - h)) hc))"
  have len_ext: "length ext = ?k" using len by (simp add: ext_def)
  have nth: "ext ! i = int (shp ! (length shp - ?k + i)) - 2 * (hc ! i)" if "i < ?k" for i
  proof -
    have "rev (map (\<lambda>h. (- h, - h)) hc) = map (\<lambda>h. (- h, - h)) hc"
      using sym by (simp add: rev_map)
    then show ?thesis using that len by (simp add: ext_def)
  qed
  have ok: "\<not> list_ex (\<lambda>e. e < 0) ext"
  proof
    assume "list_ex (\<lambda>e. e < 0) ext"
    then obtain e where "e \<in> set ext" "e < 0" unfolding list_ex_iff by blast
    then obtain i where "i < length ext" "ext ! i = e" by (metis in_set_conv_nth)
    with nth nonneg len_ext \<open>e < 0\<close> show False by fastforce
  qed
  have eq: "pad_shape shp (map uminus (concat (map (\<lambda>h. [h, h]) hc)))
            = Inr (take (length shp - ?k) shp @ map nat ext)"
    using len ok unfolding pad_shape_def ext_def
    by (simp add: length_doubled pad_pairs_doubled Let_def)
  have "int ((take (length shp - ?k) shp @ map nat ext) ! (length shp - ?k + i))
        = int (shp ! (length shp - ?k + i)) - 2 * (hc ! i)" if "i < ?k" for i
  proof -
    have "length (take (length shp - ?k) shp) = length shp - ?k" by simp
    then have "(take (length shp - ?k) shp @ map nat ext) ! (length shp - ?k + i)
               = map nat ext ! i"
      by (metis nth_append_length_plus)
    then have "(take (length shp - ?k) shp @ map nat ext) ! (length shp - ?k + i) = nat (ext ! i)"
      using that len_ext by simp
    moreover have "0 \<le> ext ! i" using nth [OF that] nonneg that by simp
    ultimately show ?thesis using nth [OF that] by simp
  qed
  then show ?thesis using eq len len_ext by simp
qed

lemma center_crop_symmetric:
  assumes len: "length skip = length x1"
    and sym: "rev (half_crops skip x1) = half_crops skip x1"
  shows "\<exists>sk. center_crop (shape_engine interp convt spatial) skip x1 = Inr sk
           \<and> length sk = length skip
           \<and> (\<forall>j. 2 \<le> j \<and> j < length skip
                 \<longrightarrow> int (sk ! j) = int (skip ! j) - 2 * ((int (skip ! j) - int (x1 ! j)) div 2))"
proof -
  let ?hc = "half_crops skip x1"
  have k: "length ?hc = length skip - 2" using len by (rule length_half_crops)
  then have le: "length ?hc \<le> length skip" by simp
  have nonneg: "\<forall>i<length ?hc. 0 \<le> int (skip ! (length skip - length ?hc + i)) - 2 * (?hc ! i)"
  proof (intro allI impI)
    fix i assume i: "i < length ?hc"
    let ?j = "length skip - length ?hc + i"
    have j: "2 \<le> ?j" "?j < length skip" "?j - 2 = i" using i k by simp_all
    define a b where "a = int (skip ! ?j)" and "b = int (x1 ! ?j)"
    have "?hc ! i = (a - b) div 2"
      using half_crops_nth [OF len j(1,2)] j(3) by (simp add: a_def b_def)
    moreover have "0 \<le> b" by (simp add: b_def)
    then have "0 \<le> a - 2 * ((a - b) div 2)" by presburger
    ultimately show "0 \<le> int (skip ! ?j) - 2 * (?hc ! i)"
      by (simp add: a_def)
  qed
  from pad_shape_symmetric [OF le sym nonneg] obtain r where
    r: "pad_shape skip (map uminus (concat (map (\<lambda>h. [h, h]) ?hc))) = Inr r"
       "length r = length skip"
       "\<forall>i<length ?hc. int (r ! (length skip - length ?hc + i))
            = int (skip ! (length skip - length ?hc + i)) - 2 * (?hc ! i)"
    by blast
  have crop: "center_crop (shape_engine interp convt spatial) skip x1 = Inr r"
    using r(1) by (simp add: center_crop_def shape_engine_def crop_pad_equal_rank [OF len]
        bind_err_def)
  have "int (r ! j) = int (skip ! j) - 2 * ((int (skip ! j) - int (x1 ! j)) div 2)"
    if j: "2 \<le> j" "j < length skip" for j
  proof -
    have i: "j - 2 < length ?hc" "length skip - length ?hc + (j - 2) = j" using j k by simp_all
    from r(3) i have "int (r ! j) = int (skip ! j) - 2 * (?hc ! (j - 2))" by fastforce
    then show ?thesis using half_crops_nth [OF len j] by simp
  qed
  then show ?thesis using crop r(2) by blast
qed

text \<open>
  What the code does for an odd crop, whatever the rank: the forward pass of the block
  raises; if \<open>center_crop\<close> returns, the extent of its result on that axis differs from
  the extent of \<open>x\<close> and the concatenation raises; nothing repairs the mismatch. With
  one spatial axis, or with half crops that read the same from the last axis to the
  first, \<open>center_crop\<close> returns and the extent is \<open>skip_extent - 2 * floor(crop / 2)\<close>:
  7 for a skip connection of extent 11 against an \<open>x\<close> of extent 6.
\<close>

lemma odd_crop_any_rank:
  assumes "apply_upsample (shape_engine interp convt spatial) (db_upsample blk) x0 = Inr x1"
    and "2 \<le> i" and "i < length skip" and "odd (int (skip ! i) - int (x1 ! i))"
  shows "DecodingBlock_forward (shape_engine interp convt spatial) blk skip x0 = Inl RuntimeError
       \<and> (\<forall>sk. center_crop (shape_engine interp convt spatial) skip x1 = Inr sk
              \<longrightarrow> sk ! i \<noteq> x1 ! i
                \<and> cat_fn (shape_engine interp convt spatial) sk x1 CHANNELS_DIMENSION
                    = Inl RuntimeError)
       \<and> (\<forall>n c s n' c' e. skip = [n, c, s] \<and> x1 = [n', c', e]
              \<longrightarrow> (\<exists>r. center_crop (shape_engine interp convt spatial) skip x1 = Inr [n, c, r]
                     \<and> int r = int s - 2 * ((int s - int e) div 2)
                     \<and> r \<noteq> e))
       \<and> (length skip = length x1 \<and> rev (half_crops skip x1) = half_crops skip x1
              \<longrightarrow> (\<exists>sk. center_crop (shape_engine interp convt spatial) skip x1 = Inr sk
                     \<and> length sk = length skip
                     \<and> (\<forall>j. 2 \<le> j \<and> j < length skip
                           \<longrightarrow> int (sk ! j)
                               = int (skip ! j) - 2 * ((int (skip ! j) - int (x1 ! j)) div 2))))"
proof (intro conjI allI impI)
  let ?E = "shape_engine interp convt spatial"
  show "DecodingBlock_forward ?E blk skip x0 = Inl RuntimeError"
    using assms by (rule odd_crop_forward_fails)
  {
    fix sk assume sk: "center_crop ?E skip x1 = Inr sk"
    from sk obtain pad where pad: "crop_pad skip x1 = Inr pad"
      and ps: "pad_shape skip pad = Inr sk"
      by (auto simp: center_crop_def bind_err_def shape_engine_def split: sum.splits)
    from crop_pad_pairs [OF pad] obtain hc where
      hc: "pad = map uminus (concat (map (\<lambda>h. [h, h]) hc))" by blast
    have "even (int (sk ! i) - int (skip ! i))"
      using pad_shape_parity [OF ps [unfolded hc] assms(3)] .
    with assms(4) show "sk ! i \<noteq> x1 ! i" by presburger
    let ?r = "bind_err (center_crop ?E skip x1) (\<lambda>sk. cat_fn ?E sk x1 CHANNELS_DIMENSION)"
    from crop_then_cat_odd_fails [OF assms(2,3,4)] obtain err where err: "?r = Inl err"
      by (cases ?r) auto
    then have "err = RuntimeError" by (rule crop_then_cat_errors)
    with err show "cat_fn ?E sk x1 CHANNELS_DIMENSION = Inl RuntimeError"
      by (simp add: sk bind_err_def)
  }
  {
    fix n c s n' c' e assume shapes: "skip = [n, c, s] \<and> x1 = [n', c', e]"
    have "i = 2" using assms(2,3) shapes by simp
    then have odd: "odd (int s - int e)" using assms(4) shapes by simp
    from one_axis_crop(1) [OF odd] one_axis_crop(2) [OF odd]
    have "center_crop ?E skip x1 = Inr [n, c, Suc e]
          \<and> int (Suc e) = int s - 2 * ((int s - int e) div 2) \<and> Suc e \<noteq> e"
      using shapes by simp
    then show "\<exists>r. center_crop ?E skip x1 = Inr [n, c, r]
                 \<and> int r = int s - 2 * ((int s - int e) div 2) \<and> r \<noteq> e"
      by blast
  }
  {
    assume "length skip = length x1 \<and> rev (half_crops skip x1) = half_crops skip x1"
    then show "\<exists>sk. center_crop ?E skip x1 = Inr sk \<and> length sk = length skip
                 \<and> (\<forall>j. 2 \<le> j \<and> j < length skip
                       \<longrightarrow> int (sk ! j)
                           = int (skip ! j) - 2 * ((int (skip ! j) - int (x1 ! j)) div 2))"
      using center_crop_symmetric [of skip x1 interp convt spatial] by blast
  }
qed

lemma odd_crop_any_rank_examples:
  "(\<exists>blk. DecodingBlock_init example_defaults 4 1 ''conv'' None True False False ''zeros''
            (Some ''ReLU'') None = Inr blk
      \<and> apply_upsample example_engine (db_upsample blk) [1, 8, 3] = Inr [1, 8, 6]
      \<and> odd (int ([1, 4, 11] ! 2) - int ([1, 8, 6 :: nat] ! 2))
      \<and> (int ([1, 4, 11] ! 2) - int ([1, 8, 6 :: nat] ! 2)) div 2 = 2
      \<and> center_crop example_engine [1, 4, 11] [1, 8, 6] = Inr [1, 4, 7]
      \<and> cat_fn example_engine [1, 4, 7] [1, 8, 6] CHANNELS_DIMENSION = Inl RuntimeError
      \<and> DecodingBlock_forward example_engine blk [1, 4, 11] [1, 8, 3] = Inl RuntimeError)
   \<and> (\<exists>blk. DecodingBlock_init example_defaults 4 3 ''conv'' None True False False ''zeros''
            (Some ''ReLU'') None = Inr blk
      \<and> apply_upsample example_engine (db_upsample blk) [1, 8, 3, 3, 3] = Inr [1, 8, 6, 6, 6]
      \<and> half_crops [1, 4, 11, 11, 11] [1, 8, 6, 6, 6] = [2, 2, 2]
      \<and> center_crop example_engine [1, 4, 11, 11, 11] [1, 8, 6, 6, 6] = Inr [1, 4, 7, 7, 7]
      \<and> DecodingBlock_forward example_engine blk [1, 4, 11, 11, 11] [1, 8, 3, 3, 3]
          = Inl RuntimeError)"
proof
  obtain blk where blk: "DecodingBlock_init example_defaults 4 1 ''conv'' None True False False
      ''zeros'' (Some ''ReLU'') None = Inr blk"
    by (simp add: eval_defs)
  have up: "apply_upsample (shape_engine interpolate_shape conv_transpose_shape keep_extents)
              (db_upsample blk) [1, 8, 3] = Inr [1, 8, 6]"
    using blk by (auto simp: eval_defs)
  have i: "(2::nat) \<le> 2" "2 < length [1, 4, 11 :: nat]"
    and odd: "odd (int ([1, 4, 11] ! 2) - int ([1, 8, 6 :: nat] ! 2))"
    by simp_all
  from odd_crop_any_rank [OF up i odd]
  have fwd: "DecodingBlock_forward example_engine blk [1, 4, 11] [1, 8, 3] = Inl RuntimeError"
    and all: "\<forall>sk. center_crop example_engine [1, 4, 11] [1, 8, 6] = Inr sk
              \<longrightarrow> cat_fn example_engine sk [1, 8, 6] CHANNELS_DIMENSION = Inl RuntimeError"
    and one: "\<exists>r. center_crop example_engine [1, 4, 11] [1, 8, 6] = Inr [1, 4, r]
              \<and> int r = int 11 - 2 * ((int 11 - int 6) div 2)"
    unfolding example_engine_def by blast+
  from one obtain r where r: "center_crop example_engine [1, 4, 11] [1, 8, 6] = Inr [1, 4, r]"
    and "int r = 7" by auto
  then have crop: "center_crop example_engine [1, 4, 11] [1, 8, 6] = Inr [1, 4, 7]" by simp
  with all have cat: "cat_fn example_engine [1, 4, 7] [1, 8, 6] CHANNELS_DIMENSION
                      = Inl RuntimeError" by blast
  show "\<exists>blk. DecodingBlock_init example_defaults 4 1 ''conv'' None True False False ''zeros''
            (Some ''ReLU'') None = Inr blk
      \<and> apply_upsample example_engine (db_upsample blk) [1, 8, 3] = Inr [1, 8, 6]
      \<and> odd (int ([1, 4, 11] ! 2) - int ([1, 8, 6 :: nat] ! 2))
      \<and> (int ([1, 4, 11] ! 2) - int ([1, 8, 6 :: nat] ! 2)) div 2 = 2
      \<and> center_crop example_engine [1, 4, 11] [1, 8, 6] = Inr [1, 4, 7]
      \<and> cat_fn example_engine [1, 4, 7] [1, 8, 6] CHANNELS_DIMENSION = Inl RuntimeError
      \<and> DecodingBlock_forward example_engine blk [1, 4, 11] [1, 8, 3] = Inl RuntimeError"
    using blk up fwd crop cat by (intro exI [of _ blk]) (simp add: example_engine_def)
next
  obtain blk where blk: "DecodingBlock_init example_defaults 4 3 ''conv'' None True False False
      ''zeros'' (Some ''ReLU'') None = Inr blk"
    by (simp add: eval_defs)
  have up: "apply_upsample (shape_engine interpolate_shape conv_transpose_shape keep_extents)
              (db_upsample blk) [1, 8, 3, 3, 3] = Inr [1, 8, 6, 6, 6]"
    using blk by (auto simp: eval_defs)
  have i: "(2::nat) \<le> 3" "3 < length [1, 4, 11, 11, 11 :: nat]"
    and odd: "odd (int ([1, 4, 11, 11, 11] ! 3) - int ([1, 8, 6, 6, 6 :: nat] ! 3))"
    by simp_all
  have hc: "half_crops [1, 4, 11, 11, 11] [1, 8, 6, 6, 6] = [2, 2, 2]"
    by (simp add: half_crops_def)
  from odd_crop_any_rank [OF up i odd]
  have fwd: "DecodingBlock_forward example_engine blk [1, 4, 11, 11, 11] [1, 8, 3, 3, 3]
             = Inl RuntimeError"
    unfolding example_engine_def by blast
  have crop: "center_crop example_engine [1, 4, 11, 11, 11] [1, 8, 6, 6, 6]
              = Inr [1, 4, 7, 7, 7]"
    by (simp add: eval_defs)
  show "\<exists>blk. DecodingBlock_init example_defaults 4 3 ''conv'' None True False False ''zeros''
            (Some ''ReLU'') None = Inr blk
      \<and> apply_upsample example_engine (db_upsample blk) [1, 8, 3, 3, 3] = Inr [1, 8, 6, 6, 6]
      \<and> half_crops [1, 4, 11, 11, 11] [1, 8, 6, 6, 6] = [2, 2, 2]
      \<and> center_crop example_engine [1, 4, 11, 11, 11] [1, 8, 6, 6, 6] = Inr [1, 4, 7, 7, 7]
      \<and> DecodingBlock_forward example_engine blk [1, 4, 11, 11, 11] [1, 8, 3, 3, 3]
          = Inl RuntimeError"
    using blk up fwd crop hc by (intro exI [of _ blk]) (simp add: example_engine_def)
qed

text \<open>
  C8. The claim: when the crop \<open>skip_extent - x_extent\<close> of an axis is odd,
  \<open>center_crop\<close> returns a skip connection whose extent on that axis is
  \<open>skip_extent - 2 * floor(crop / 2)\<close>, which differs from the extent of \<open>x\<close>, and the
  concatenation that follows raises. With two spatial axes the code gives the pair of
  each axis to the other axis. For a skip connection of spatial shape (11, 20) against
  an \<open>x\<close> of spatial shape (6, 10) the half crops are 2 and 5 and the descriptor is
  (-2, -2, -5, -5): the axis of extent 11, whose crop is odd, loses 5 on each side and
  keeps extent 1, not \<open>11 - 2 * 2 = 7\<close>, and the axis of extent 20 keeps 16. For
  (11, 30) against (6, 6) the axis of extent 11 would lose 12 on each side, and the
  padding primitive raises inside \<open>center_crop\<close>, before any concatenation.
\<close>

theorem odd_crop_extent_wrong_axis:
  "half_crops [n, c, 11, 20] [n', c', 6, 10] = [2, 5]
   \<and> crop_pad [n, c, 11, 20] [n', c', 6, 10] = Inr [-2, -2, -5, -5]
   \<and> center_crop (shape_engine interp convt spatial) [n, c, 11, 20] [n', c', 6, 10]
       = Inr [n, c, 1, 16]
   \<and> half_crops [n, c, 11, 30] [n', c', 6, 6] = [2, 12]
   \<and> crop_pad [n, c, 11, 30] [n', c', 6, 6] = Inr [-2, -2, -12, -12]
   \<and> center_crop (shape_engine interp convt spatial) [n, c, 11, 30] [n', c', 6, 6]
       = Inl RuntimeError"
  by (simp add: half_crops_def center_crop_def shape_engine_def crop_pad_def tensor_sub_def
        bind_err_def pad_shape_def)

theorem odd_crop_extent_wrong_axis_witness:
  "half_crops [1, 4, 11, 20] [1, 8, 6, 10] = [2, 5]
   \<and> crop_pad [1, 4, 11, 20] [1, 8, 6, 10] = Inr [-2, -2, -5, -5]
   \<and> center_crop example_engine [1, 4, 11, 20] [1, 8, 6, 10] = Inr [1, 4, 1, 16]
   \<and> half_crops [1, 4, 11, 30] [1, 8, 6, 6] = [2, 12]
   \<and> crop_pad [1, 4, 11, 30] [1, 8, 6, 6] = Inr [-2, -2, -12, -12]
   \<and> center_crop example_engine [1, 4, 11, 30] [1, 8, 6, 6] = Inl RuntimeError"
  using odd_crop_extent_wrong_axis
    [of 1 4 1 8 interpolate_shape conv_transpose_shape keep_extents]
  by (simp add: example_engine_def)

subsection \<open>The concatenation and the channel counts\<close>

text \<open>What a returning call of a convolutional block, and of the forward pass, went through.\<close>

lemma conv_block_shape_Inr:
  assumes "conv_block_shape spatial cb shp = Inr r"
  shows "1 < length shp \<and> 1 < length r \<and> int (shp ! 1) = cb_in_channels cb
         \<and> r ! 1 = nat (cb_out_channels cb)"
  using assms
  by (auto simp: conv_block_shape_def bind_err_def split: list.splits if_splits sum.splits)

lemma forward_Inr_steps:
  assumes "DecodingBlock_forward eng blk skip x = Inr y"
  shows "\<exists>x1 sk cc x3 x4.
           apply_upsample eng (db_upsample blk) x = Inr x1
         \<and> center_crop eng skip x1 = Inr sk
         \<and> cat_fn eng sk x1 1 = Inr cc
         \<and> conv_block_fn eng (db_conv1 blk) cc = Inr x3
         \<and> conv_block_fn eng (db_conv2 blk) x3 = Inr x4
         \<and> (if db_residual blk
            then \<exists>cr connection. db_conv_residual blk = Some cr
                   \<and> conv_block_fn eng cr cc = Inr connection
                   \<and> iadd_fn eng x4 connection = Inr y
            else y = x4)"
  using assms
  by (auto simp: DecodingBlock_forward_def bind_err_def CHANNELS_DIMENSION_def
        split: sum.splits if_splits option.splits)

text \<open>
  C9. In a block built for the skip-channel count \<open>c\<close>, \<open>conv1\<close> maps \<open>3 * c\<close>
  channels to \<open>c\<close> and \<open>conv2\<close> maps \<open>c\<close> to \<open>c\<close>. Whatever the tensor engine, a
  forward pass that returns has concatenated the cropped skip connection, as first
  argument, with the upsampled \<open>x\<close>, as second argument, along axis 1, and has given
  the result to \<open>conv1\<close> and then \<open>conv2\<close>. On shapes, the channel count of a
  concatenation along that axis is the sum of the channel counts of its two arguments,
  and the result of the forward pass has exactly \<open>c\<close> channels.
\<close>

theorem concat_skip_first_channels:
  assumes "DecodingBlock_init dflt c dims up norm pre res pad pm act dil = Inr blk"
  shows "cb_in_channels (db_conv1 blk) = 3 * c \<and> cb_out_channels (db_conv1 blk) = c
       \<and> cb_in_channels (db_conv2 blk) = c \<and> cb_out_channels (db_conv2 blk) = c
       \<and> CHANNELS_DIMENSION = 1
       \<and> (\<forall>y. DecodingBlock_forward eng blk skip x = Inr y \<longrightarrow>
            (\<exists>x1 sk cc. apply_upsample eng (db_upsample blk) x = Inr x1
               \<and> center_crop eng skip x1 = Inr sk
               \<and> cat_fn eng sk x1 CHANNELS_DIMENSION = Inr cc
               \<and> (\<exists>x3. conv_block_fn eng (db_conv1 blk) cc = Inr x3
                     \<and> (\<exists>x4. conv_block_fn eng (db_conv2 blk) x3 = Inr x4))))
       \<and> (\<forall>a b cc. cat_fn (shape_engine interp convt spatial) a b CHANNELS_DIMENSION = Inr cc
            \<longrightarrow> length cc = length a \<and> cc ! 1 = a ! 1 + b ! 1)
       \<and> (\<forall>skip' x' y. DecodingBlock_forward (shape_engine interp convt spatial) blk skip' x' = Inr y
            \<longrightarrow> 1 < length y \<and> int (y ! 1) = c)"
proof (intro conjI allI impI)
  from DecodingBlock_init_fields(2,3) [OF assms]
  show "cb_in_channels (db_conv1 blk) = 3 * c" "cb_out_channels (db_conv1 blk) = c"
       "cb_in_channels (db_conv2 blk) = c" "cb_out_channels (db_conv2 blk) = c"
    by (simp_all add: ConvolutionalBlock_init_def)
  then have cfg: "cb_in_channels (db_conv1 blk) = 3 * c" "cb_out_channels (db_conv2 blk) = c"
    by simp_all
  show "CHANNELS_DIMENSION = 1" by (simp add: CHANNELS_DIMENSION_def)
  {
    fix y assume "DecodingBlock_forward eng blk skip x = Inr y"
    from forward_Inr_steps [OF this]
    show "\<exists>x1 sk cc. apply_upsample eng (db_upsample blk) x = Inr x1
               \<and> center_crop eng skip x1 = Inr sk
               \<and> cat_fn eng sk x1 CHANNELS_DIMENSION = Inr cc
               \<and> (\<exists>x3. conv_block_fn eng (db_conv1 blk) cc = Inr x3
                     \<and> (\<exists>x4. conv_block_fn eng (db_conv2 blk) x3 = Inr x4))"
      unfolding CHANNELS_DIMENSION_def by blast
  }
  {
    fix a b cc
    assume "cat_fn (shape_engine interp convt spatial) a b CHANNELS_DIMENSION = Inr cc"
    then have "cat_shape a b 1 = Inr cc"
      by (simp add: shape_engine_def CHANNELS_DIMENSION_def)
    then have cc: "cc = a[1 := a ! 1 + b ! 1]" and l: "1 < length a"
      by (auto simp: cat_shape_def split: if_splits)
    show "length cc = length a" by (simp add: cc)
    show "cc ! 1 = a ! 1 + b ! 1" using l by (simp add: cc)
  }
  {
    fix skip' x' y
    let ?E = "shape_engine interp convt spatial"
    assume "DecodingBlock_forward ?E blk skip' x' = Inr y"
    from forward_Inr_steps [OF this] obtain cc x3 x4 where
      c1': "conv_block_fn ?E (db_conv1 blk) cc = Inr x3"
      and c2': "conv_block_fn ?E (db_conv2 blk) x3 = Inr x4"
      and y: "if db_residual blk
              then \<exists>cr connection. db_conv_residual blk = Some cr
                     \<and> conv_block_fn ?E cr cc = Inr connection
                     \<and> iadd_fn ?E x4 connection = Inr y
              else y = x4"
      by blast
    have c1: "conv_block_shape spatial (db_conv1 blk) cc = Inr x3"
      and c2: "conv_block_shape spatial (db_conv2 blk) x3 = Inr x4"
      using c1' c2' by (simp_all add: shape_engine_def)
    have "y = x4"
    proof (cases "db_residual blk")
      case True
      with y obtain connection where "iadd_shape x4 connection = Inr y"
        by (auto simp: shape_engine_def)
      then show ?thesis by (auto simp: iadd_shape_def split: if_splits)
    next
      case False
      with y show ?thesis by simp
    qed
    moreover from conv_block_shape_Inr [OF c1] cfg have "0 \<le> c" by simp
    moreover note conv_block_shape_Inr [OF c2] cfg
    ultimately show "1 < length y" "int (y ! 1) = c" by simp_all
  }
qed

theorem concat_skip_first_channels_witness:
  "\<exists>blk ct. DecodingBlock_init example_defaults 4 1 ''conv'' None True False False ''zeros''
            (Some ''ReLU'') None = Inr blk
      \<and> cb_in_channels (db_conv1 blk) = 12 \<and> cb_out_channels (db_conv1 blk) = 4
      \<and> cb_in_channels (db_conv2 blk) = 4 \<and> cb_out_channels (db_conv2 blk) = 4
      \<and> db_upsample blk = ConvTransposeLayer ct
      \<and> DecodingBlock_forward (symbolic_engine (\<lambda>t. [1, 1, 8])) blk (Sym ''skip'') (Sym ''x'')
          = Inr (SymConv (db_conv2 blk) (SymConv (db_conv1 blk)
                  (SymCat (SymPad (Sym ''skip'') [0, 0]) (SymConvTranspose ct (Sym ''x'')) 1)))
      \<and> cat_fn example_engine [1, 4, 8] [1, 8, 8] CHANNELS_DIMENSION = Inr [1, 12, 8]
      \<and> DecodingBlock_forward example_engine blk [1, 4, 8] [1, 8, 4] = Inr [1, 4, 8]"
proof -
  obtain blk where blk: "DecodingBlock_init example_defaults 4 1 ''conv'' None True False False
      ''zeros'' (Some ''ReLU'') None = Inr blk"
    by (simp add: eval_defs)
  from concat_skip_first_channels
         [OF blk, where eng = "symbolic_engine (\<lambda>t. [1, 1, 8])" and skip = "Sym ''skip''"
            and x = "Sym ''x''" and interp = interpolate_shape and convt = conv_transpose_shape
            and spatial = keep_extents]
  have cfg: "cb_in_channels (db_conv1 blk) = 12 \<and> cb_out_channels (db_conv1 blk) = 4
      \<and> cb_in_channels (db_conv2 blk) = 4 \<and> cb_out_channels (db_conv2 blk) = 4"
    by simp
  obtain ct where ct: "db_upsample blk = ConvTransposeLayer ct"
    using blk by (auto simp: eval_defs)
  have sym: "DecodingBlock_forward (symbolic_engine (\<lambda>t. [1, 1, 8])) blk (Sym ''skip'') (Sym ''x'')
          = Inr (SymConv (db_conv2 blk) (SymConv (db_conv1 blk)
                  (SymCat (SymPad (Sym ''skip'') [0, 0]) (SymConvTranspose ct (Sym ''x'')) 1)))"
    using blk ct by (auto simp: eval_defs symbolic_engine_def)
  have cat: "cat_fn example_engine [1, 4, 8] [1, 8, 8] CHANNELS_DIMENSION = Inr [1, 12, 8]"
    by (simp add: eval_defs)
  have fwd: "DecodingBlock_forward example_engine blk [1, 4, 8] [1, 8, 4] = Inr [1, 4, 8]"
    using blk by (auto simp: eval_defs)
  show ?thesis
    using blk cfg ct sym cat fwd by blast
qed

end
